theory Spec2Isabelle
  imports Complex_Main "HOL-Library.Char_ord" "HOL-Library.List_Lexorder" "HOL-Library.Sublist"
begin

section \<open>JavaScript values used by the blog services\<close>

text \<open>
  The services are TypeScript classes over in-memory arrays. A string is modelled as a
  list of code units; the model covers the code units below 256, so a \<open>char\<close> is one
  code unit. Page numbers, page sizes, counters and time stamps (milliseconds since the
  epoch) are integers. A number that the code obtains by a division or from a missing
  date can also be infinite or NaN, so such results have the type \<open>jsnum\<close>.
\<close>

datatype jsnum = Fin int | PosInf | NegInf | NaN

text \<open>The relational operator \<open><\<close> on numbers: every comparison with NaN is false.\<close>

fun num_lt :: "jsnum \<Rightarrow> jsnum \<Rightarrow> bool" where
  "num_lt NaN _ = False"
| "num_lt _ NaN = False"
| "num_lt (Fin a) (Fin b) = (a < b)"
| "num_lt (Fin a) PosInf = True"
| "num_lt NegInf (Fin b) = True"
| "num_lt NegInf PosInf = True"
| "num_lt _ _ = False"

text \<open>
  \<open>Math.ceil(a / b)\<close> for integers \<open>a\<close> and \<open>b\<close>. Division by zero gives an infinity,
  or NaN for \<open>0 / 0\<close>. Negative zero is identified with zero.
\<close>

definition ceil_div :: "int \<Rightarrow> int \<Rightarrow> jsnum" where
  "ceil_div a b =
     (if b = 0 then (if a = 0 then NaN else if 0 < a then PosInf else NegInf)
      else Fin (- ((- a) div b)))"

text \<open>The values a sort comparator sees: a number or a string.\<close>

datatype jsval = JNum jsnum | JStr string

text \<open>
  \<open>a < b\<close> on two numbers or on two strings (code unit by code unit). Each sort field
  gives values of one kind, so the mixed cases are never evaluated.
\<close>

fun js_lt :: "jsval \<Rightarrow> jsval \<Rightarrow> bool" where
  "js_lt (JNum a) (JNum b) = num_lt a b"
| "js_lt (JStr s) (JStr t) = (s < t)"
| "js_lt _ _ = False"

definition js_gt :: "jsval \<Rightarrow> jsval \<Rightarrow> bool" where
  "js_gt a b = js_lt b a"

subsection \<open>Strings\<close>

definition toLowerCase_char :: "char \<Rightarrow> char" where
  "toLowerCase_char c =
     (let n = (of_char c :: nat) in
      if (65 \<le> n \<and> n \<le> 90) \<or> (192 \<le> n \<and> n \<le> 222 \<and> n \<noteq> 215)
      then char_of (n + 32) else c)"

definition toLowerCase :: "string \<Rightarrow> string" where
  "toLowerCase s = map toLowerCase_char s"

text \<open>\<open>s.includes(t)\<close>: \<open>t\<close> occurs in \<open>s\<close> as a contiguous substring.\<close>

fun includes_str :: "string \<Rightarrow> string \<Rightarrow> bool" where
  "includes_str [] t = (t = [])"
| "includes_str (c # cs) t = (prefix t (c # cs) \<or> includes_str cs t)"

text \<open>White space and line terminators that \<open>trim\<close> removes, among the code units below 256.\<close>

definition isWhiteSpace :: "char \<Rightarrow> bool" where
  "isWhiteSpace c = List.member [9, 10, 11, 12, 13, 32, 160] (of_char c :: nat)"

definition trim :: "string \<Rightarrow> string" where
  "trim s = rev (dropWhile isWhiteSpace (rev (dropWhile isWhiteSpace s)))"

subsection \<open>Arrays\<close>

text \<open>
  \<open>xs.slice(start, stop)\<close>: a negative index counts from the back, both indices are
  clamped to the array, and an empty range gives the empty array.
\<close>

definition slice :: "'a list \<Rightarrow> int \<Rightarrow> int \<Rightarrow> 'a list" where
  "slice xs start stop =
     (let len = int (length xs);
          k = (if start < 0 then max (len + start) 0 else min start len);
          fin = (if stop < 0 then max (len + stop) 0 else min stop len)
      in take (nat (fin - k)) (drop (nat k) xs))"

text \<open>
  \<open>xs.sort(cmp)\<close> on a copy: a stable sort, modelled as an insertion sort. An element
  goes in front of the first element of the sorted rest that the comparator does not
  put before it, so elements that compare equal keep their input order.

  When the comparator is a consistent order on the elements, every stable sort gives
  this result. When it is not (a NaN sort value among three or more elements), the
  language leaves the order to the engine, and the order this function gives there is
  not the engine's. The properties of the sort stage below are stated where no sort
  value is NaN.
\<close>

fun insert_by :: "('a \<Rightarrow> 'a \<Rightarrow> int) \<Rightarrow> 'a \<Rightarrow> 'a list \<Rightarrow> 'a list" where
  "insert_by cmp x [] = [x]"
| "insert_by cmp x (y # ys) =
     (if cmp x y \<le> 0 then x # y # ys else y # insert_by cmp x ys)"

definition array_sort :: "('a \<Rightarrow> 'a \<Rightarrow> int) \<Rightarrow> 'a list \<Rightarrow> 'a list" where
  "array_sort cmp xs = foldr (insert_by cmp) xs []"

subsection \<open>Numbers and dates as text\<close>

definition digit_char :: "nat \<Rightarrow> char" where
  "digit_char d = char_of (48 + d)"

fun string_of_nat :: "nat \<Rightarrow> string" where
  "string_of_nat n =
     (if n < 10 then [digit_char n]
      else string_of_nat (n div 10) @ [digit_char (n mod 10)])"

declare string_of_nat.simps [simp del]

text \<open>A template literal prints an integer in decimal (below \<open>10^21\<close> in magnitude).\<close>

definition string_of_int :: "int \<Rightarrow> string" where
  "string_of_int i = (if i < 0 then CHR ''-'' # string_of_nat (nat (- i)) else string_of_nat (nat i))"

text \<open>A natural number in at least \<open>w\<close> decimal digits, padded with zeros.\<close>

definition pad_nat :: "nat \<Rightarrow> nat \<Rightarrow> string" where
  "pad_nat w n = (let s = string_of_nat n in replicate (w - length s) CHR ''0'' @ s)"

text \<open>
  \<open>Date.prototype.toISOString\<close> of a time stamp: the proleptic Gregorian calendar in
  UTC, \<open>YYYY-MM-DDTHH:mm:ss.sssZ\<close>, with a signed six-digit year outside \<open>0..9999\<close>.
\<close>

definition civil_from_days :: "int \<Rightarrow> int \<times> int \<times> int" where
  "civil_from_days days =
     (let z = days + 719468;
          era = z div 146097;
          doe = z - era * 146097;
          yoe = (doe - doe div 1460 + doe div 36524 - doe div 146096) div 365;
          doy = doe - (365 * yoe + yoe div 4 - yoe div 100);
          mp = (5 * doy + 2) div 153;
          d = doy - (153 * mp + 2) div 5 + 1;
          m = (if mp < 10 then mp + 3 else mp - 9);
          y = yoe + era * 400 + (if m \<le> 2 then 1 else 0)
      in (y, m, d))"

definition toISOString :: "int \<Rightarrow> string" where
  "toISOString t =
     (let days = t div 86400000;
          ms = nat (t mod 86400000);
          (y, m, d) = civil_from_days days;
          year = (if 0 \<le> y \<and> y \<le> 9999 then pad_nat 4 (nat y)
                  else (if y < 0 then ''-'' else ''+'') @ pad_nat 6 (nat \<bar>y\<bar>))
      in year @ ''-'' @ pad_nat 2 (nat m) @ ''-'' @ pad_nat 2 (nat d) @ ''T''
         @ pad_nat 2 (ms div 3600000) @ '':'' @ pad_nat 2 (ms div 60000 mod 60) @ '':''
         @ pad_nat 2 (ms div 1000 mod 60) @ ''.'' @ pad_nat 3 (ms mod 1000) @ ''Z'')"

subsection \<open>JSON text\<close>

text \<open>
  \<open>JSON.stringify\<close> of a string: in double quotes, with the quote, the backslash and
  the control characters escaped.
\<close>

definition hex_digit :: "nat \<Rightarrow> char" where
  "hex_digit d = (if d < 10 then char_of (48 + d) else char_of (87 + d))"

definition quote_char :: "char \<Rightarrow> string" where
  "quote_char c =
     (let n = (of_char c :: nat) in
      if n = 34 then [CHR 0x5C, CHR 0x22]
      else if n = 92 then [CHR 0x5C, CHR 0x5C]
      else if n = 8 then [CHR 0x5C, CHR ''b'']
      else if n = 9 then [CHR 0x5C, CHR ''t'']
      else if n = 10 then [CHR 0x5C, CHR ''n'']
      else if n = 12 then [CHR 0x5C, CHR ''f'']
      else if n = 13 then [CHR 0x5C, CHR ''r'']
      else if n < 32 then [CHR 0x5C, CHR ''u'', CHR ''0'', CHR ''0'', hex_digit (n div 16), hex_digit (n mod 16)]
      else [c])"

definition quoteJSONString :: "string \<Rightarrow> string" where
  "quoteJSONString s = CHR 0x22 # concat (map quote_char s) @ [CHR 0x22]"

fun join_with :: "string \<Rightarrow> string list \<Rightarrow> string" where
  "join_with sep [] = []"
| "join_with sep [x] = x"
| "join_with sep (x # y # ys) = x @ sep @ join_with sep (y # ys)"

definition json_string_array :: "string list \<Rightarrow> string" where
  "json_string_array xs = ''['' @ join_with '','' (map quoteJSONString xs) @ '']''"

section \<open>The data model (blog.interface)\<close>

datatype BlogPostStatus = draft | published | archived | scheduled

datatype BlogSortBy =
  PublishedAt | CreatedAt | UpdatedAt | Title | Views | Likes | CommentsCount | ReadingTime

datatype SortDirection = asc | desc

text \<open>
  A post, with the fields the services read or write. \<open>publishedAt\<close> is optional in
  the interface. The fields that only the templates read (content, images, SEO and
  sharing metadata) are left out.
\<close>

record BlogPost =
  post_id :: string
  title :: string
  slug :: string
  excerpt :: string
  status :: BlogPostStatus
  authorId :: string
  categoryIds :: "string list"
  tags :: "string list"
  readingTime :: int
  views :: int
  likes :: int
  commentsCount :: int
  featured :: bool
  createdAt :: int
  updatedAt :: int
  publishedAt :: "int option"

text \<open>
  A \<open>Date\<close> object in a filter holds a time value or is an Invalid Date.
\<close>

datatype jsdate = Date int | InvalidDate

text \<open>
  A filter object is a JavaScript object whose properties are all optional. Its own
  properties are kept in insertion order; an object has each property at most once.
  A property can be present with the value \<open>undefined\<close> (\<open>Undefined k\<close> for the key
  \<open>k\<close>): reading it gives undefined, and \<open>JSON.stringify\<close> leaves it out.
\<close>

datatype FilterKey =
  K_search | K_categoryIds | K_tags | K_authorId | K_status | K_featured
| K_dateFrom | K_dateTo | K_sortBy | K_sortDirection

datatype FilterProp =
  Search string
| CategoryIds "string list"
| Tags "string list"
| AuthorId string
| Status BlogPostStatus
| Featured bool
| DateFrom jsdate
| DateTo jsdate
| SortBy BlogSortBy
| SortDir SortDirection
| Undefined FilterKey

type_synonym BlogFilters = "FilterProp list"

fun key_of :: "FilterProp \<Rightarrow> FilterKey" where
  "key_of (Search _) = K_search"
| "key_of (CategoryIds _) = K_categoryIds"
| "key_of (Tags _) = K_tags"
| "key_of (AuthorId _) = K_authorId"
| "key_of (Status _) = K_status"
| "key_of (Featured _) = K_featured"
| "key_of (DateFrom _) = K_dateFrom"
| "key_of (DateTo _) = K_dateTo"
| "key_of (SortBy _) = K_sortBy"
| "key_of (SortDir _) = K_sortDirection"
| "key_of (Undefined k) = k"

fun key_name :: "FilterKey \<Rightarrow> string" where
  "key_name K_search = ''search''"
| "key_name K_categoryIds = ''categoryIds''"
| "key_name K_tags = ''tags''"
| "key_name K_authorId = ''authorId''"
| "key_name K_status = ''status''"
| "key_name K_featured = ''featured''"
| "key_name K_dateFrom = ''dateFrom''"
| "key_name K_dateTo = ''dateTo''"
| "key_name K_sortBy = ''sortBy''"
| "key_name K_sortDirection = ''sortDirection''"

definition prop_name :: "FilterProp \<Rightarrow> string" where
  "prop_name p = key_name (key_of p)"

definition wf_filters :: "BlogFilters \<Rightarrow> bool" where
  "wf_filters fs = distinct (map key_of fs)"

text \<open>
  Reading a property: the value when the object has the property with a value,
  \<open>None\<close> (undefined) when the property is absent or present with the value undefined.
\<close>

fun get_search :: "BlogFilters \<Rightarrow> string option" where
  "get_search [] = None"
| "get_search (Search s # fs) = Some s"
| "get_search (Undefined K_search # fs) = None"
| "get_search (p # fs) = get_search fs"

fun get_categoryIds :: "BlogFilters \<Rightarrow> string list option" where
  "get_categoryIds [] = None"
| "get_categoryIds (CategoryIds c # fs) = Some c"
| "get_categoryIds (Undefined K_categoryIds # fs) = None"
| "get_categoryIds (p # fs) = get_categoryIds fs"

fun get_tags :: "BlogFilters \<Rightarrow> string list option" where
  "get_tags [] = None"
| "get_tags (Tags t # fs) = Some t"
| "get_tags (Undefined K_tags # fs) = None"
| "get_tags (p # fs) = get_tags fs"

fun get_authorId :: "BlogFilters \<Rightarrow> string option" where
  "get_authorId [] = None"
| "get_authorId (AuthorId a # fs) = Some a"
| "get_authorId (Undefined K_authorId # fs) = None"
| "get_authorId (p # fs) = get_authorId fs"

fun get_status :: "BlogFilters \<Rightarrow> BlogPostStatus option" where
  "get_status [] = None"
| "get_status (Status s # fs) = Some s"
| "get_status (Undefined K_status # fs) = None"
| "get_status (p # fs) = get_status fs"

fun get_featured :: "BlogFilters \<Rightarrow> bool option" where
  "get_featured [] = None"
| "get_featured (Featured b # fs) = Some b"
| "get_featured (Undefined K_featured # fs) = None"
| "get_featured (p # fs) = get_featured fs"

fun get_dateFrom :: "BlogFilters \<Rightarrow> jsdate option" where
  "get_dateFrom [] = None"
| "get_dateFrom (DateFrom t # fs) = Some t"
| "get_dateFrom (Undefined K_dateFrom # fs) = None"
| "get_dateFrom (p # fs) = get_dateFrom fs"

fun get_dateTo :: "BlogFilters \<Rightarrow> jsdate option" where
  "get_dateTo [] = None"
| "get_dateTo (DateTo t # fs) = Some t"
| "get_dateTo (Undefined K_dateTo # fs) = None"
| "get_dateTo (p # fs) = get_dateTo fs"

fun get_sortBy :: "BlogFilters \<Rightarrow> BlogSortBy option" where
  "get_sortBy [] = None"
| "get_sortBy (SortBy s # fs) = Some s"
| "get_sortBy (Undefined K_sortBy # fs) = None"
| "get_sortBy (p # fs) = get_sortBy fs"

fun get_sortDirection :: "BlogFilters \<Rightarrow> SortDirection option" where
  "get_sortDirection [] = None"
| "get_sortDirection (SortDir d # fs) = Some d"
| "get_sortDirection (Undefined K_sortDirection # fs) = None"
| "get_sortDirection (p # fs) = get_sortDirection fs"

record BlogPagination =
  currentPage :: int
  totalPages :: jsnum
  totalItems :: int
  itemsPerPage :: int
  hasPrevious :: bool
  hasNext :: bool

text \<open>
  Arrays of posts hold references to post objects, not copies: \<open>'r\<close> is the type of
  references, and the functions below read a post through a store \<open>h\<close>.
\<close>

record 'r BlogPostsResponse =
  data :: "'r list"
  pagination :: BlogPagination
  filters :: BlogFilters

record BlogLoadingState =
  loading :: bool
  error :: bool
  errorMessage :: "string option"
  initialLoad :: bool
  loadingMore :: bool

section \<open>The mock data module (blog-mock.data)\<close>

text \<open>
  \<open>BLOG_POSTS_MOCK\<close> is an array of post objects. The helpers below take the store
  \<open>h\<close> of the objects and the array \<open>mock\<close> of references to them, and return
  references to the same objects, as \<open>find\<close> and \<open>filter\<close> do.
\<close>

definition mock_getPostById :: "('r \<Rightarrow> BlogPost) \<Rightarrow> 'r list \<Rightarrow> string \<Rightarrow> 'r option" where
  "mock_getPostById h mock i = find (\<lambda>post. post_id (h post) = i) mock"

definition mock_getPostBySlug :: "('r \<Rightarrow> BlogPost) \<Rightarrow> 'r list \<Rightarrow> string \<Rightarrow> 'r option" where
  "mock_getPostBySlug h mock s = find (\<lambda>post. slug (h post) = s) mock"

definition mock_getPublishedPosts :: "('r \<Rightarrow> BlogPost) \<Rightarrow> 'r list \<Rightarrow> 'r list" where
  "mock_getPublishedPosts h mock = filter (\<lambda>post. status (h post) = published) mock"

definition mock_searchPosts :: "('r \<Rightarrow> BlogPost) \<Rightarrow> 'r list \<Rightarrow> string \<Rightarrow> 'r list" where
  "mock_searchPosts h mock searchTerm =
     (let lowercaseTerm = toLowerCase searchTerm in
      filter (\<lambda>post. status (h post) = published
                \<and> (includes_str (toLowerCase (title (h post))) lowercaseTerm
                   \<or> includes_str (toLowerCase (excerpt (h post))) lowercaseTerm
                   \<or> list_ex (\<lambda>tag. includes_str (toLowerCase tag) lowercaseTerm) (tags (h post))))
        mock)"

section \<open>BlogService: the private pipeline\<close>

subsection \<open>Filtering\<close>

text \<open>
  \<open>_applyFilters\<close> copies the array and narrows it once per filter that is set. A
  filter counts as set when its value is truthy: a non-empty string, \<open>true\<close>, a date,
  and for the two arrays a positive length.
\<close>

definition filter_search :: "('r \<Rightarrow> BlogPost) \<Rightarrow> BlogFilters \<Rightarrow> 'r list \<Rightarrow> 'r list" where
  "filter_search h fs filteredPosts =
     (case get_search fs of
        None \<Rightarrow> filteredPosts
      | Some s \<Rightarrow>
          if s = [] then filteredPosts
          else (let searchTerm = toLowerCase s in
                filter (\<lambda>post. includes_str (toLowerCase (title (h post))) searchTerm
                          \<or> includes_str (toLowerCase (excerpt (h post))) searchTerm
                          \<or> list_ex (\<lambda>tag. includes_str (toLowerCase tag) searchTerm) (tags (h post)))
                  filteredPosts))"

definition filter_categoryIds :: "('r \<Rightarrow> BlogPost) \<Rightarrow> BlogFilters \<Rightarrow> 'r list \<Rightarrow> 'r list" where
  "filter_categoryIds h fs filteredPosts =
     (case get_categoryIds fs of
        None \<Rightarrow> filteredPosts
      | Some ids \<Rightarrow>
          if 0 < length ids
          then filter (\<lambda>post. list_ex (\<lambda>catId. List.member (categoryIds (h post)) catId) ids)
                 filteredPosts
          else filteredPosts)"

definition filter_tags :: "('r \<Rightarrow> BlogPost) \<Rightarrow> BlogFilters \<Rightarrow> 'r list \<Rightarrow> 'r list" where
  "filter_tags h fs filteredPosts =
     (case get_tags fs of
        None \<Rightarrow> filteredPosts
      | Some ts \<Rightarrow>
          if 0 < length ts
          then filter (\<lambda>post. list_ex (\<lambda>tag. List.member (tags (h post)) tag) ts) filteredPosts
          else filteredPosts)"

definition filter_authorId :: "('r \<Rightarrow> BlogPost) \<Rightarrow> BlogFilters \<Rightarrow> 'r list \<Rightarrow> 'r list" where
  "filter_authorId h fs filteredPosts =
     (case get_authorId fs of
        None \<Rightarrow> filteredPosts
      | Some a \<Rightarrow>
          if a = [] then filteredPosts
          else filter (\<lambda>post. authorId (h post) = a) filteredPosts)"

definition filter_status :: "('r \<Rightarrow> BlogPost) \<Rightarrow> BlogFilters \<Rightarrow> 'r list \<Rightarrow> 'r list" where
  "filter_status h fs filteredPosts =
     (case get_status fs of
        None \<Rightarrow> filteredPosts
      | Some st \<Rightarrow> filter (\<lambda>post. status (h post) = st) filteredPosts)"

definition filter_featured :: "('r \<Rightarrow> BlogPost) \<Rightarrow> BlogFilters \<Rightarrow> 'r list \<Rightarrow> 'r list" where
  "filter_featured h fs filteredPosts =
     (case get_featured fs of
        None \<Rightarrow> filteredPosts
      | Some b \<Rightarrow>
          if b then filter (\<lambda>post. featured (h post)) filteredPosts else filteredPosts)"

text \<open>
  The date filters compare \<open>new Date(post.publishedAt)\<close> with the bound. A date
  object is truthy even when invalid, so a bound that is present always filters. A
  post without \<open>publishedAt\<close> gives an invalid date; with an invalid date on either
  side both comparisons are false.
\<close>

definition filter_dateFrom :: "('r \<Rightarrow> BlogPost) \<Rightarrow> BlogFilters \<Rightarrow> 'r list \<Rightarrow> 'r list" where
  "filter_dateFrom h fs filteredPosts =
     (case get_dateFrom fs of
        None \<Rightarrow> filteredPosts
      | Some dateFrom \<Rightarrow>
          filter (\<lambda>post. case (publishedAt (h post), dateFrom) of
                             (Some t, Date b) \<Rightarrow> b \<le> t
                           | _ \<Rightarrow> False)
            filteredPosts)"

definition filter_dateTo :: "('r \<Rightarrow> BlogPost) \<Rightarrow> BlogFilters \<Rightarrow> 'r list \<Rightarrow> 'r list" where
  "filter_dateTo h fs filteredPosts =
     (case get_dateTo fs of
        None \<Rightarrow> filteredPosts
      | Some dateTo \<Rightarrow>
          filter (\<lambda>post. case (publishedAt (h post), dateTo) of
                             (Some t, Date b) \<Rightarrow> t \<le> b
                           | _ \<Rightarrow> False)
            filteredPosts)"

definition applyFilters :: "('r \<Rightarrow> BlogPost) \<Rightarrow> 'r list \<Rightarrow> BlogFilters \<Rightarrow> 'r list" where
  "applyFilters h posts fs =
     filter_dateTo h fs (filter_dateFrom h fs (filter_featured h fs (filter_status h fs
       (filter_authorId h fs (filter_tags h fs (filter_categoryIds h fs
         (filter_search h fs posts)))))))"

subsection \<open>Sorting\<close>

definition getTime :: "int option \<Rightarrow> jsnum" where
  "getTime d = (case d of None \<Rightarrow> NaN | Some t \<Rightarrow> Fin t)"

text \<open>The value the comparator of \<open>_applySorting\<close> takes from a post, per sort field.\<close>

fun sortValue :: "BlogSortBy \<Rightarrow> BlogPost \<Rightarrow> jsval" where
  "sortValue PublishedAt a = JNum (getTime (publishedAt a))"
| "sortValue CreatedAt a = JNum (Fin (createdAt a))"
| "sortValue UpdatedAt a = JNum (Fin (updatedAt a))"
| "sortValue Title a = JStr (toLowerCase (title a))"
| "sortValue Views a = JNum (Fin (views a))"
| "sortValue Likes a = JNum (Fin (likes a))"
| "sortValue CommentsCount a = JNum (Fin (commentsCount a))"
| "sortValue ReadingTime a = JNum (Fin (readingTime a))"

definition compareValues :: "SortDirection \<Rightarrow> jsval \<Rightarrow> jsval \<Rightarrow> int" where
  "compareValues direction aValue bValue =
     (if direction = asc
      then (if js_gt aValue bValue then 1 else if js_lt aValue bValue then - 1 else 0)
      else (if js_lt aValue bValue then 1 else if js_gt aValue bValue then - 1 else 0))"

text \<open>
  \<open>_applySorting(posts, sortBy = 'publishedAt', direction = 'desc')\<close>: an undefined
  argument takes its default; the input array is copied before it is sorted.
\<close>

definition applySorting ::
  "('r \<Rightarrow> BlogPost) \<Rightarrow> 'r list \<Rightarrow> BlogSortBy option \<Rightarrow> SortDirection option \<Rightarrow> 'r list" where
  "applySorting h posts sortBy direction =
     (let sb = (case sortBy of None \<Rightarrow> PublishedAt | Some s \<Rightarrow> s);
          dir = (case direction of None \<Rightarrow> desc | Some d \<Rightarrow> d)
      in array_sort (\<lambda>a b. compareValues dir (sortValue sb (h a)) (sortValue sb (h b))) posts)"

subsection \<open>Pagination and the response\<close>

definition applyPagination :: "'r list \<Rightarrow> int \<Rightarrow> int \<Rightarrow> 'r list" where
  "applyPagination posts page pageSize =
     (let startIndex = (page - 1) * pageSize;
          endIndex = startIndex + pageSize
      in slice posts startIndex endIndex)"

definition buildResponse ::
  "'r list \<Rightarrow> int \<Rightarrow> int \<Rightarrow> BlogFilters \<Rightarrow> int option \<Rightarrow> 'r BlogPostsResponse" where
  "buildResponse posts page pageSize fs totalItemsArg =
     (let total = (case totalItemsArg of None \<Rightarrow> int (length posts) | Some t \<Rightarrow> t);
          pages = ceil_div total pageSize
      in \<lparr>data = posts,
          pagination = \<lparr>currentPage = page, totalPages = pages, totalItems = total,
                        itemsPerPage = pageSize, hasPrevious = (1 < page),
                        hasNext = num_lt (Fin page) pages\<rparr>,
          filters = fs\<rparr>)"

subsection \<open>The cache key\<close>

fun status_string :: "BlogPostStatus \<Rightarrow> string" where
  "status_string draft = ''draft''"
| "status_string published = ''published''"
| "status_string archived = ''archived''"
| "status_string scheduled = ''scheduled''"

fun sortBy_string :: "BlogSortBy \<Rightarrow> string" where
  "sortBy_string PublishedAt = ''publishedAt''"
| "sortBy_string CreatedAt = ''createdAt''"
| "sortBy_string UpdatedAt = ''updatedAt''"
| "sortBy_string Title = ''title''"
| "sortBy_string Views = ''views''"
| "sortBy_string Likes = ''likes''"
| "sortBy_string CommentsCount = ''commentsCount''"
| "sortBy_string ReadingTime = ''readingTime''"

text \<open>
  The JSON text of a property value. A date is written as its ISO string, an Invalid
  Date as \<open>null\<close>; the value undefined has no JSON text.
\<close>

fun date_json :: "jsdate \<Rightarrow> string" where
  "date_json (Date t) = quoteJSONString (toISOString t)"
| "date_json InvalidDate = ''null''"

fun prop_json :: "FilterProp \<Rightarrow> string option" where
  "prop_json (Search s) = Some (quoteJSONString s)"
| "prop_json (CategoryIds ids) = Some (json_string_array ids)"
| "prop_json (Tags ts) = Some (json_string_array ts)"
| "prop_json (AuthorId a) = Some (quoteJSONString a)"
| "prop_json (Status st) = Some (quoteJSONString (status_string st))"
| "prop_json (Featured b) = Some (if b then ''true'' else ''false'')"
| "prop_json (DateFrom d) = Some (date_json d)"
| "prop_json (DateTo d) = Some (date_json d)"
| "prop_json (SortBy sb) = Some (quoteJSONString (sortBy_string sb))"
| "prop_json (SortDir d) = Some (quoteJSONString (if d = asc then ''asc'' else ''desc''))"
| "prop_json (Undefined k) = None"

text \<open>A member of the JSON object: the quoted name, a colon and the value's text.\<close>

definition member_json :: "FilterProp \<Rightarrow> string option" where
  "member_json p = map_option (\<lambda>v. quoteJSONString (prop_name p) @ '':'' @ v) (prop_json p)"

text \<open>
  \<open>JSON.stringify(filters)\<close>: the properties that have a JSON text, in insertion
  order; a property whose value is undefined is left out.
\<close>

definition JSON_stringify :: "BlogFilters \<Rightarrow> string" where
  "JSON_stringify fs = ''{'' @ join_with '','' (List.map_filter member_json fs) @ ''}''"

definition generateCacheKey :: "int \<Rightarrow> int \<Rightarrow> BlogFilters \<Rightarrow> string" where
  "generateCacheKey page pageSize fs =
     string_of_int page @ ''-'' @ string_of_int pageSize @ ''-'' @ JSON_stringify fs"

section \<open>BlogService: state and public operations\<close>

text \<open>
  A post object lives in the store \<open>heap\<close> under its reference. \<open>BLOG_POSTS_MOCK\<close>
  and every array the service caches or returns hold references, so a write to a post
  is seen through all of them. The service keeps its loading state, the two cache maps
  and the two subjects with the current filters and page.

  An operation returns what its observable emits, to one subscriber, together with the
  state after the emission; the simulated delay is not modelled apart from the clock:
  \<open>now\<close> is \<open>Date.now()\<close> at the call and \<open>later\<close> is \<open>Date.now()\<close> at the emission.
\<close>

type_synonym ref = nat

record BlogService =
  loadingState :: BlogLoadingState
  postsCache :: "string \<rightharpoonup> ref list"
  lastFetchTime :: "string \<rightharpoonup> int"
  currentFilters_subject :: BlogFilters
  currentPage_subject :: int

record app =
  heap :: "ref \<Rightarrow> BlogPost"
  BLOG_POSTS_MOCK :: "ref list"
  blog :: BlogService

definition CACHE_DURATION :: int where
  "CACHE_DURATION = 5 * 60 * 1000"

definition new_BlogService :: BlogService where
  "new_BlogService =
     \<lparr>loadingState = \<lparr>loading = False, error = False, errorMessage = None,
                        initialLoad = True, loadingMore = False\<rparr>,
      postsCache = Map.empty, lastFetchTime = Map.empty,
      currentFilters_subject = [], currentPage_subject = 1\<rparr>"

definition setLoading :: "bool \<Rightarrow> BlogService \<Rightarrow> BlogService" where
  "setLoading l s =
     s\<lparr>loadingState :=
         (loadingState s)\<lparr>loading := l, error := False, errorMessage := None,
                           initialLoad := (if initialLoad (loadingState s) \<and> \<not> l then False
                                           else initialLoad (loadingState s))\<rparr>\<rparr>"

text \<open>\<open>_setError\<close> is what the error handlers of the observables call; no callback modelled below throws inside one.\<close>

definition setError :: "string \<Rightarrow> BlogService \<Rightarrow> BlogService" where
  "setError message s =
     s\<lparr>loadingState :=
         (loadingState s)\<lparr>loading := False, error := True, errorMessage := Some message\<rparr>\<rparr>"

text \<open>\<open>_isCacheValid\<close>: a missing time stamp, and the falsy time stamp 0, are not valid.\<close>

definition isCacheValid :: "BlogService \<Rightarrow> int \<Rightarrow> string \<Rightarrow> bool" where
  "isCacheValid s now cacheKey =
     (case lastFetchTime s cacheKey of
        None \<Rightarrow> False
      | Some lastFetch \<Rightarrow> if lastFetch = 0 then False else now - lastFetch < CACHE_DURATION)"

text \<open>
  \<open>getPosts(page, pageSize, filters)\<close>. On a valid cache entry the cached array goes
  to \<open>_buildResponse\<close> as it is, with no total. Otherwise the published posts are
  filtered and sorted, the sorted array is cached under the key, and its page is
  returned with the length of the sorted array as the total.
\<close>

definition getPosts ::
  "app \<Rightarrow> int \<Rightarrow> int \<Rightarrow> int \<Rightarrow> int \<Rightarrow> BlogFilters \<Rightarrow> ref BlogPostsResponse \<times> app" where
  "getPosts w now later page pageSize fs =
     (let s1 = setLoading True (blog w);
          cacheKey = generateCacheKey page pageSize fs
      in case (if isCacheValid s1 now cacheKey then postsCache s1 cacheKey else None) of
           Some cachedPosts \<Rightarrow>
             (buildResponse cachedPosts page pageSize fs None, w\<lparr>blog := setLoading False s1\<rparr>)
         | None \<Rightarrow>
             (let posts = mock_getPublishedPosts (heap w) (BLOG_POSTS_MOCK w);
                  posts = applyFilters (heap w) posts fs;
                  posts = applySorting (heap w) posts (get_sortBy fs) (get_sortDirection fs);
                  s2 = s1\<lparr>postsCache := (postsCache s1)(cacheKey \<mapsto> posts),
                          lastFetchTime := (lastFetchTime s1)(cacheKey \<mapsto> later)\<rparr>;
                  paginatedPosts = applyPagination posts page pageSize;
                  s3 = (setLoading False s2)\<lparr>currentFilters_subject := fs,
                                              currentPage_subject := page\<rparr>
              in (buildResponse paginatedPosts page pageSize fs (Some (int (length posts))),
                  w\<lparr>blog := s3\<rparr>)))"

text \<open>
  \<open>getPostById\<close> and \<open>getPostBySlug\<close> emit \<open>post || null\<close>: the post that the
  lookup found, or null. The observable's error channel is the left summand.
\<close>

definition getPostById :: "app \<Rightarrow> string \<Rightarrow> (string + ref option) \<times> app" where
  "getPostById w i =
     (let s1 = setLoading True (blog w);
          post = mock_getPostById (heap w) (BLOG_POSTS_MOCK w) i
      in (Inr post, w\<lparr>blog := setLoading False s1\<rparr>))"

definition getPostBySlug :: "app \<Rightarrow> string \<Rightarrow> (string + ref option) \<times> app" where
  "getPostBySlug w s =
     (let s1 = setLoading True (blog w);
          post = mock_getPostBySlug (heap w) (BLOG_POSTS_MOCK w) s
      in (Inr post, w\<lparr>blog := setLoading False s1\<rparr>))"

text \<open>\<open>searchPosts(term, filters)\<close>: a blank term returns \<open>of([])\<close> before anything else.\<close>

definition searchPosts :: "app \<Rightarrow> string \<Rightarrow> BlogFilters \<Rightarrow> ref list \<times> app" where
  "searchPosts w searchTerm fs =
     (if trim searchTerm = [] then ([], w)
      else (let s1 = setLoading True (blog w);
                posts = mock_searchPosts (heap w) (BLOG_POSTS_MOCK w) searchTerm;
                posts = applyFilters (heap w) posts fs;
                posts = applySorting (heap w) posts (get_sortBy fs) (get_sortDirection fs)
            in (posts, w\<lparr>blog := setLoading False s1\<rparr>)))"

text \<open>\<open>incrementViews(postId)\<close> adds one to the \<open>views\<close> of the post object it finds.\<close>

definition incrementViews :: "app \<Rightarrow> string \<Rightarrow> bool \<times> app" where
  "incrementViews w postId =
     (case mock_getPostById (heap w) (BLOG_POSTS_MOCK w) postId of
        Some post \<Rightarrow>
          (True, w\<lparr>heap := (heap w)(post := (heap w post)\<lparr>views := views (heap w post) + 1\<rparr>)\<rparr>)
      | None \<Rightarrow> (False, w))"

text \<open>
  \<open>toggleLike(postId)\<close>: \<open>liked\<close> is the outcome of \<open>Math.random() > 0.5\<close>. An unknown
  id makes the observable fail with an error.
\<close>

definition toggleLike :: "app \<Rightarrow> bool \<Rightarrow> string \<Rightarrow> (string + bool \<times> int) \<times> app" where
  "toggleLike w liked postId =
     (case mock_getPostById (heap w) (BLOG_POSTS_MOCK w) postId of
        Some post \<Rightarrow>
          (let n = likes (heap w post) + (if liked then 1 else - 1)
           in (Inr (liked, n), w\<lparr>heap := (heap w)(post := (heap w post)\<lparr>likes := n\<rparr>)\<rparr>))
      | None \<Rightarrow> (Inl ''Post no encontrado'', w))"

definition clearCache :: "app \<Rightarrow> app" where
  "clearCache w = w\<lparr>blog := (blog w)\<lparr>postsCache := Map.empty, lastFetchTime := Map.empty\<rparr>\<rparr>"

definition resetFilters :: "app \<Rightarrow> app" where
  "resetFilters w = w\<lparr>blog := (blog w)\<lparr>currentFilters_subject := [], currentPage_subject := 1\<rparr>\<rparr>"

text \<open>
  The states the application can be in: the module's posts with a freshly constructed
  service, and every state an operation of the service leads to.
\<close>

inductive reachable :: "app \<Rightarrow> bool" where
  init: "reachable \<lparr>heap = h, BLOG_POSTS_MOCK = mock, blog = new_BlogService\<rparr>"
| step_getPosts: "reachable w \<Longrightarrow> reachable (snd (getPosts w now later page pageSize fs))"
| step_getPostById: "reachable w \<Longrightarrow> reachable (snd (getPostById w i))"
| step_getPostBySlug: "reachable w \<Longrightarrow> reachable (snd (getPostBySlug w s))"
| step_searchPosts: "reachable w \<Longrightarrow> reachable (snd (searchPosts w searchTerm fs))"
| step_incrementViews: "reachable w \<Longrightarrow> reachable (snd (incrementViews w postId))"
| step_toggleLike: "reachable w \<Longrightarrow> reachable (snd (toggleLike w liked postId))"
| step_clearCache: "reachable w \<Longrightarrow> reachable (clearCache w)"
| step_resetFilters: "reachable w \<Longrightarrow> reachable (resetFilters w)"

section \<open>CategoriaService\<close>

text \<open>
  A category, with the fields the service and the mock data helpers read. The filter
  object of the category list is read field by field only, so it is a record of
  optional fields. No operation below writes to a category, so arrays of categories
  hold the categories themselves.
\<close>

record BlogCategory =
  cat_id :: string
  cat_name :: string
  cat_slug :: string
  cat_description :: string
  cat_color :: string
  cat_parentId :: "string option"
  postsCount :: int
  isActive :: bool
  cat_order :: int
  seo_keywords :: "string list"

datatype CategorySortBy = ByName | ByPostsCount | ByOrder | ByCreatedAt | ByUpdatedAt

record CategoryFilters =
  cf_search :: "string option"
  cf_activeOnly :: "bool option"
  cf_parentOnly :: "bool option"
  cf_parentId :: "string option"
  cf_color :: "string option"
  cf_sortBy :: "CategorySortBy option"
  cf_sortDirection :: "SortDirection option"

record CategoriesResponse =
  cat_data :: "BlogCategory list"
  cat_pagination :: BlogPagination

record CategoriaService =
  cat_loading :: bool
  cat_error :: "string option"
  categoriesCache :: "BlogCategory list option"
  lastCacheTime :: int

record cat_app =
  CATEGORIES_MOCK :: "BlogCategory list"
  categoria :: CategoriaService

definition CAT_CACHE_DURATION :: int where
  "CAT_CACHE_DURATION = 10 * 60 * 1000"

definition mock_searchCategories :: "BlogCategory list \<Rightarrow> string \<Rightarrow> BlogCategory list" where
  "mock_searchCategories mock searchTerm =
     (let lowercaseTerm = toLowerCase searchTerm in
      filter (\<lambda>category. includes_str (toLowerCase (cat_name category)) lowercaseTerm
                \<or> includes_str (toLowerCase (cat_description category)) lowercaseTerm
                \<or> list_ex (\<lambda>keyword. includes_str keyword lowercaseTerm) (seo_keywords category))
        mock)"

definition cat_setLoading :: "bool \<Rightarrow> CategoriaService \<Rightarrow> CategoriaService" where
  "cat_setLoading l s =
     (let s1 = s\<lparr>cat_loading := l\<rparr> in if l then s1\<lparr>cat_error := None\<rparr> else s1)"

text \<open>\<open>_getCachedCategories\<close>: the cached array while it is fresh, else a new copy of the mock array.\<close>

definition getCachedCategories :: "cat_app \<Rightarrow> int \<Rightarrow> BlogCategory list \<times> cat_app" where
  "getCachedCategories w now =
     (case (if now - lastCacheTime (categoria w) < CAT_CACHE_DURATION
            then categoriesCache (categoria w) else None) of
        Some cached \<Rightarrow> (cached, w)
      | None \<Rightarrow>
          (CATEGORIES_MOCK w,
           w\<lparr>categoria := (categoria w)\<lparr>categoriesCache := Some (CATEGORIES_MOCK w),
                                           lastCacheTime := now\<rparr>\<rparr>))"

definition truthy_string :: "string option \<Rightarrow> bool" where
  "truthy_string v = (case v of None \<Rightarrow> False | Some s \<Rightarrow> s \<noteq> [])"

definition truthy_bool :: "bool option \<Rightarrow> bool" where
  "truthy_bool v = (case v of None \<Rightarrow> False | Some b \<Rightarrow> b)"

definition cat_applyFilters :: "BlogCategory list \<Rightarrow> CategoryFilters \<Rightarrow> BlogCategory list" where
  "cat_applyFilters categories fs =
     (let filtered = categories;
          filtered = (case cf_search fs of
                        None \<Rightarrow> filtered
                      | Some s \<Rightarrow>
                          if s = [] then filtered
                          else (let searchTerm = toLowerCase s in
                                filter (\<lambda>cat. includes_str (toLowerCase (cat_name cat)) searchTerm
                                          \<or> includes_str (toLowerCase (cat_description cat)) searchTerm)
                                  filtered));
          filtered = (if truthy_bool (cf_activeOnly fs) then filter isActive filtered else filtered);
          filtered = (if truthy_bool (cf_parentOnly fs)
                      then filter (\<lambda>cat. \<not> truthy_string (cat_parentId cat)) filtered
                      else filtered);
          filtered = (if truthy_string (cf_parentId fs)
                      then filter (\<lambda>cat. cat_parentId cat = cf_parentId fs) filtered
                      else filtered);
          filtered = (if truthy_string (cf_color fs)
                      then filter (\<lambda>cat. Some (cat_color cat) = cf_color fs) filtered
                      else filtered)
      in filtered)"

text \<open>
  The comparator's value per sort field. For \<open>createdAt\<close> and \<open>updatedAt\<close> the code
  parses the category's name as a date; the parser is the host's, taken as \<open>parseDate\<close>.
\<close>

fun cat_sortValue :: "(string \<Rightarrow> jsnum) \<Rightarrow> CategorySortBy \<Rightarrow> BlogCategory \<Rightarrow> jsval" where
  "cat_sortValue parseDate ByName a = JStr (toLowerCase (cat_name a))"
| "cat_sortValue parseDate ByPostsCount a = JNum (Fin (postsCount a))"
| "cat_sortValue parseDate ByOrder a = JNum (Fin (cat_order a))"
| "cat_sortValue parseDate ByCreatedAt a = JNum (parseDate (cat_name a))"
| "cat_sortValue parseDate ByUpdatedAt a = JNum (parseDate (cat_name a))"

definition cat_applySorting ::
  "(string \<Rightarrow> jsnum) \<Rightarrow> BlogCategory list \<Rightarrow> CategorySortBy option \<Rightarrow> SortDirection option
     \<Rightarrow> BlogCategory list" where
  "cat_applySorting parseDate categories sortBy direction =
     (let sb = (case sortBy of None \<Rightarrow> ByOrder | Some s \<Rightarrow> s);
          dir = (case direction of None \<Rightarrow> asc | Some d \<Rightarrow> d)
      in array_sort (\<lambda>a b. compareValues dir (cat_sortValue parseDate sb a) (cat_sortValue parseDate sb b))
           categories)"

definition cat_applyPagination :: "BlogCategory list \<Rightarrow> int \<Rightarrow> int \<Rightarrow> BlogCategory list" where
  "cat_applyPagination categories page pageSize =
     (let startIndex = (page - 1) * pageSize;
          endIndex = startIndex + pageSize
      in slice categories startIndex endIndex)"

text \<open>\<open>getCategories(page, pageSize, filters)\<close>; \<open>now\<close> is \<open>Date.now()\<close> at the emission.\<close>

definition getCategories ::
  "(string \<Rightarrow> jsnum) \<Rightarrow> cat_app \<Rightarrow> int \<Rightarrow> int \<Rightarrow> int \<Rightarrow> CategoryFilters
     \<Rightarrow> CategoriesResponse \<times> cat_app" where
  "getCategories parseDate w now page pageSize fs =
     (let w1 = w\<lparr>categoria := cat_setLoading True (categoria w)\<rparr>;
          (categories, w2) = getCachedCategories w1 now;
          categories = cat_applyFilters categories fs;
          categories = cat_applySorting parseDate categories (cf_sortBy fs) (cf_sortDirection fs);
          paginatedCategories = cat_applyPagination categories page pageSize;
          w3 = w2\<lparr>categoria := cat_setLoading False (categoria w2)\<rparr>
      in (\<lparr>cat_data = paginatedCategories,
           cat_pagination =
             \<lparr>currentPage = page,
              totalPages = ceil_div (int (length categories)) pageSize,
              totalItems = int (length categories),
              itemsPerPage = pageSize,
              hasPrevious = (1 < page),
              hasNext = (page * pageSize < int (length categories))\<rparr>\<rparr>,
          w3))"

text \<open>\<open>searchCategories(term)\<close>: a blank term returns \<open>of([])\<close> before anything else.\<close>

definition searchCategories :: "cat_app \<Rightarrow> string \<Rightarrow> BlogCategory list \<times> cat_app" where
  "searchCategories w searchTerm =
     (if trim searchTerm = [] then ([], w)
      else (let w1 = w\<lparr>categoria := cat_setLoading True (categoria w)\<rparr>;
                results = mock_searchCategories (CATEGORIES_MOCK w1) searchTerm
            in (results, w1\<lparr>categoria := cat_setLoading False (categoria w1)\<rparr>)))"

section \<open>Sample data\<close>

text \<open>
  Three posts after the first entries of \<open>BLOG_POSTS_MOCK\<close> (texts shortened), a
  draft, a post titled like the first in capitals, and two categories after
  \<open>CATEGORIES_MOCK\<close>. They are the concrete inputs of the examples below.
\<close>

definition post1 :: BlogPost where
  "post1 = \<lparr>post_id = ''post-1'', title = ''Angular 18'', slug = ''angular-18'',
      excerpt = ''Novedades de Angular'', status = published, authorId = ''autor-1'',
      categoryIds = [''categoria-1'', ''categoria-7''], tags = [''angular'', ''frontend''],
      readingTime = 8, views = 2847, likes = 156, commentsCount = 23, featured = True,
      createdAt = 1705312800000, updatedAt = 1705312800000, publishedAt = Some 1705312800000\<rparr>"

definition post2 :: BlogPost where
  "post2 = \<lparr>post_id = ''post-2'', title = ''Machine Learning con Python'',
      slug = ''machine-learning-python'', excerpt = ''De principiante a experto'',
      status = published, authorId = ''autor-4'',
      categoryIds = [''categoria-2'', ''categoria-9''], tags = [''python'', ''ml''],
      readingTime = 12, views = 3421, likes = 287, commentsCount = 45, featured = True,
      createdAt = 1704897000000, updatedAt = 1704897000000, publishedAt = Some 1704897000000\<rparr>"

definition post3 :: BlogPost where
  "post3 = \<lparr>post_id = ''post-3'', title = ''Docker y Kubernetes'', slug = ''docker-kubernetes'',
      excerpt = ''Guia para DevOps'', status = published, authorId = ''autor-6'',
      categoryIds = [''categoria-3''], tags = [''docker'', ''devops''],
      readingTime = 15, views = 2156, likes = 198, commentsCount = 34, featured = False,
      createdAt = 1704705300000, updatedAt = 1704705300000, publishedAt = Some 1704705300000\<rparr>"

definition post_draft :: BlogPost where
  "post_draft = \<lparr>post_id = ''post-x'', title = ''Borrador'', slug = ''borrador'',
      excerpt = ''Sin publicar'', status = draft, authorId = ''autor-1'',
      categoryIds = [''categoria-1''], tags = [],
      readingTime = 1, views = 0, likes = 0, commentsCount = 0, featured = False,
      createdAt = 1704705300000, updatedAt = 1704705300000, publishedAt = None\<rparr>"


definition sample_heap :: "ref \<Rightarrow> BlogPost" where
  "sample_heap r = (if r = 0 then post1 else if r = 1 then post2 else if r = 2 then post3 else post_draft)"

definition sample_app :: app where
  "sample_app = \<lparr>heap = sample_heap, BLOG_POSTS_MOCK = [0, 1, 2, 3], blog = new_BlogService\<rparr>"



definition cat1 :: BlogCategory where
  "cat1 = \<lparr>cat_id = ''categoria-1'', cat_name = ''Desarrollo Web'', cat_slug = ''desarrollo-web'',
      cat_description = ''Todo sobre desarrollo frontend'', cat_color = ''#3B82F6'',
      cat_parentId = None, postsCount = 45, isActive = True, cat_order = 1,
      seo_keywords = [''desarrollo web'', ''frontend'']\<rparr>"

definition cat2 :: BlogCategory where
  "cat2 = \<lparr>cat_id = ''categoria-2'', cat_name = ''Inteligencia Artificial'', cat_slug = ''ia'',
      cat_description = ''Machine learning'', cat_color = ''#8B5CF6'',
      cat_parentId = None, postsCount = 32, isActive = True, cat_order = 2,
      seo_keywords = [''ia'', ''machine learning'']\<rparr>"

definition sample_cat_app :: cat_app where
  "sample_cat_app = \<lparr>CATEGORIES_MOCK = [cat1, cat2],
      categoria = \<lparr>cat_loading = False, cat_error = None, categoriesCache = None,
                    lastCacheTime = 0\<rparr>\<rparr>"

section \<open>Properties of the pagination stage\<close>

lemma slice_take_drop:
  assumes "0 \<le> s" "0 \<le> n"
  shows "slice xs s (s + n) = take (nat n) (drop (nat s) xs)"
proof (cases "s \<le> int (length xs)")
  case True
  with assms have "slice xs s (s + n) = take (nat (min (s + n) (int (length xs)) - s)) (drop (nat s) xs)"
    by (simp add: slice_def Let_def min_def)
  also have "\<dots> = take (nat n) (drop (nat s) xs)"
    using assms True by (cases "s + n \<le> int (length xs)") (simp_all add: min_def)
  finally show ?thesis .
next
  case False
  with assms show ?thesis by (simp add: slice_def Let_def min_def)
qed

lemma concat_windows:
  "concat (map (\<lambda>i. take p (drop (i * p) xs)) [0..<n]) = take (n * p) xs"
proof (induction n)
  case 0
  show ?case by simp
next
  case (Suc n)
  have "take (n * p + p) xs = take (n * p) xs @ take p (drop (n * p) xs)"
    by (simp add: take_add)
  with Suc show ?case by (simp add: add.commute)
qed

lemma upto_as_upt: "[1..int n] = map (\<lambda>i. int i + 1) [0..<n]"
proof (induction n)
  case 0
  show ?case by simp
next
  case (Suc n)
  have "[1..int (Suc n)] = [1..int n] @ [int n + 1]"
    using upto_rec2 [of 1 "int n + 1"] by (simp add: add.commute)
  with Suc show ?case by simp
qed

text \<open>
  Claim C3. For a sequence \<open>xs\<close> of \<open>N\<close> items and a positive page size \<open>p\<close>, the
  slices that \<open>_applyPagination\<close> returns for the pages \<open>1\<close> to \<open>ceil(N / p)\<close>,
  one after the other, are the sequence itself: every item once, in order. A page whose
  start index \<open>(page - 1) * p\<close> is at or past \<open>N\<close> gets the empty slice.
\<close>

theorem applyPagination_pages:
  assumes "0 < p"
  shows "concat (map (\<lambda>page. applyPagination xs page p)
                  [1..\<lceil>real (length xs) / real_of_int p\<rceil>]) = xs
         \<and> (\<forall>page. int (length xs) \<le> (page - 1) * p \<longrightarrow> applyPagination xs page p = [])"
proof
  define m where "m = nat \<lceil>real (length xs) / real_of_int p\<rceil>"
  have "0 \<le> real (length xs) / real_of_int p"
    using assms by simp
  then have nonneg: "0 \<le> \<lceil>real (length xs) / real_of_int p\<rceil>"
    by (simp add: zero_le_ceiling)
  have page: "applyPagination xs (int i + 1) p = take (nat p) (drop (i * nat p) xs)" for i
  proof -
    have "applyPagination xs (int i + 1) p = slice xs (int i * p) (int i * p + p)"
      by (simp add: applyPagination_def Let_def)
    also have "\<dots> = take (nat p) (drop (nat (int i * p)) xs)"
      using assms by (intro slice_take_drop) simp_all
    also have "nat (int i * p) = i * nat p"
      using assms by (simp add: nat_mult_distrib)
    finally show ?thesis .
  qed
  have "real (length xs) / real_of_int p \<le> real_of_int (int m)"
    using nonneg by (simp add: m_def)
  then have "real (length xs) \<le> real_of_int (int m) * real_of_int p"
    using assms by (simp add: pos_divide_le_eq)
  then have "int (length xs) \<le> int m * p"
    by (metis of_int_le_iff of_int_mult of_int_of_nat_eq)
  then have cover: "length xs \<le> m * nat p"
    using assms by (metis nat_int nat_mono nat_mult_distrib of_nat_0_le_iff)
  have "[1..\<lceil>real (length xs) / real_of_int p\<rceil>] = map (\<lambda>i. int i + 1) [0..<m]"
    using nonneg upto_as_upt [of m] by (simp add: m_def)
  then have "concat (map (\<lambda>page. applyPagination xs page p) [1..\<lceil>real (length xs) / real_of_int p\<rceil>])
      = concat (map (\<lambda>i. take (nat p) (drop (i * nat p) xs)) [0..<m])"
    by (simp add: comp_def page)
  also have "\<dots> = take (m * nat p) xs" by (rule concat_windows)
  also have "\<dots> = xs" using cover by simp
  finally show "concat (map (\<lambda>page. applyPagination xs page p)
                  [1..\<lceil>real (length xs) / real_of_int p\<rceil>]) = xs" .
next
  show "\<forall>page. int (length xs) \<le> (page - 1) * p \<longrightarrow> applyPagination xs page p = []"
  proof (intro allI impI)
    fix page assume h: "int (length xs) \<le> (page - 1) * p"
    then have s0: "0 \<le> (page - 1) * p" by linarith
    have "applyPagination xs page p = take (nat p) (drop (nat ((page - 1) * p)) xs)"
      unfolding applyPagination_def Let_def using s0 assms by (intro slice_take_drop) simp_all
    also have "drop (nat ((page - 1) * p)) xs = []" using h by simp
    finally show "applyPagination xs page p = []" by simp
  qed
qed

text \<open>Five items in pages of two: pages 1 to 3 give the five items, page 4 is empty.\<close>

theorem applyPagination_pages_witness:
  "concat (map (\<lambda>page. applyPagination [10, 20, 30, 40, 50 :: nat] page 2) [1, 2, 3])
     = [10, 20, 30, 40, 50]
   \<and> applyPagination [10, 20, 30, 40, 50 :: nat] 4 2 = []"
proof -
  have c: "\<lceil>real (length [10, 20, 30, 40, 50 :: nat]) / real_of_int 2\<rceil> = 3"
    by (simp add: ceiling_eq_iff)
  have u: "[1..3::int] = [1, 2, 3]" by (simp add: upto.simps)
  have p: "(0::int) < 2" by simp
  from applyPagination_pages [OF p, of "[10, 20, 30, 40, 50 :: nat]"] show ?thesis
    unfolding c u by simp
qed

section \<open>Properties of the pagination descriptor\<close>

lemma ceil_div_pos:
  "0 < b \<Longrightarrow> ceil_div a b = Fin \<lceil>real_of_int a / real_of_int b\<rceil>"
  by (simp add: ceil_div_def ceiling_divide_eq_div)

lemma product_less_iff_less_ceiling:
  fixes page pageSize n :: int
  assumes "0 < pageSize"
  shows "(page * pageSize < n) = (page < \<lceil>real_of_int n / real_of_int pageSize\<rceil>)"
proof -
  have "(page < \<lceil>real_of_int n / real_of_int pageSize\<rceil>)
          = (real_of_int page < real_of_int n / real_of_int pageSize)"
    by (simp add: less_ceiling_iff)
  also have "\<dots> = (real_of_int page * real_of_int pageSize < real_of_int n)"
    using assms by (simp add: pos_less_divide_eq)
  also have "\<dots> = (page * pageSize < n)"
    by (metis of_int_less_iff of_int_mult)
  finally show ?thesis by simp
qed

lemma buildResponse_pagination:
  "0 < pageSize \<Longrightarrow>
   pagination (buildResponse posts page pageSize fs tot) =
     (let n = (case tot of None \<Rightarrow> int (length posts) | Some t \<Rightarrow> t);
          pages = \<lceil>real_of_int n / real_of_int pageSize\<rceil>
      in \<lparr>currentPage = page, totalPages = Fin pages, totalItems = n, itemsPerPage = pageSize,
          hasPrevious = (1 < page), hasNext = (page < pages)\<rparr>)"
  by (simp add: buildResponse_def Let_def ceil_div_pos)

lemma getPosts_pagination:
  assumes "0 < pageSize"
  shows "\<exists>n. 0 \<le> n \<and> pagination (fst (getPosts w now later page pageSize fs)) =
     \<lparr>currentPage = page, totalPages = Fin \<lceil>real_of_int n / real_of_int pageSize\<rceil>,
      totalItems = n, itemsPerPage = pageSize,
      hasPrevious = (1 < page), hasNext = (page < \<lceil>real_of_int n / real_of_int pageSize\<rceil>)\<rparr>"
proof (cases "if isCacheValid (setLoading True (blog w)) now (generateCacheKey page pageSize fs)
              then postsCache (setLoading True (blog w)) (generateCacheKey page pageSize fs)
              else None")
  case None
  then show ?thesis
    using assms
    by (intro exI [of _ "int (length (applySorting (heap w)
            (applyFilters (heap w) (mock_getPublishedPosts (heap w) (BLOG_POSTS_MOCK w)) fs)
            (get_sortBy fs) (get_sortDirection fs)))"])
       (simp add: getPosts_def Let_def buildResponse_pagination)
next
  case (Some cachedPosts)
  then show ?thesis
    using assms
    by (intro exI [of _ "int (length cachedPosts)"])
       (simp add: getPosts_def Let_def buildResponse_pagination)
qed

lemma getCategories_pagination:
  assumes "0 < pageSize"
  shows "\<exists>n. 0 \<le> n \<and> cat_pagination (fst (getCategories parseDate cw now page pageSize cfs)) =
     \<lparr>currentPage = page, totalPages = Fin \<lceil>real_of_int n / real_of_int pageSize\<rceil>,
      totalItems = n, itemsPerPage = pageSize,
      hasPrevious = (1 < page), hasNext = (page * pageSize < n)\<rparr>"
  using assms
  by (auto simp add: getCategories_def Let_def ceil_div_pos split: prod.split)

text \<open>
  Claim C4. For a positive page size \<open>pageSize\<close> and any page number \<open>page\<close>, the
  pagination descriptor that \<open>BlogService.getPosts(page, pageSize, filters)\<close> returns,
  on the cache-hit and on the cache-miss path, and the one that
  \<open>CategoriaService.getCategories(page, pageSize, filters)\<close> returns have
  \<open>currentPage = page\<close>, \<open>itemsPerPage = pageSize\<close>, a total that is not negative,
  \<open>totalPages = ceil(totalItems / itemsPerPage)\<close>, \<open>hasNext\<close> exactly when
  \<open>currentPage < totalPages\<close>, and \<open>hasPrevious\<close> exactly when \<open>currentPage > 1\<close>.
  \<open>CategoriaService\<close> computes \<open>hasNext\<close> as \<open>page * pageSize < totalItems\<close>, which
  is the same condition.
\<close>

theorem pagination_descriptor:
  assumes "0 < pageSize"
  shows "(let pg = pagination (fst (getPosts w now later page pageSize fs));
              pages = \<lceil>real_of_int (totalItems pg) / real_of_int pageSize\<rceil>
          in currentPage pg = page
             \<and> itemsPerPage pg = pageSize
             \<and> 0 \<le> totalItems pg
             \<and> totalPages pg = Fin pages
             \<and> hasNext pg = (page < pages)
             \<and> hasPrevious pg = (1 < page))
       \<and> (let pg = cat_pagination (fst (getCategories parseDate cw now' page pageSize cfs));
              pages = \<lceil>real_of_int (totalItems pg) / real_of_int pageSize\<rceil>
          in currentPage pg = page
             \<and> itemsPerPage pg = pageSize
             \<and> 0 \<le> totalItems pg
             \<and> totalPages pg = Fin pages
             \<and> hasNext pg = (page * pageSize < totalItems pg)
             \<and> hasNext pg = (page < pages)
             \<and> hasPrevious pg = (1 < page))"
proof -
  obtain n where n: "0 \<le> n" "pagination (fst (getPosts w now later page pageSize fs)) =
     \<lparr>currentPage = page, totalPages = Fin \<lceil>real_of_int n / real_of_int pageSize\<rceil>,
      totalItems = n, itemsPerPage = pageSize,
      hasPrevious = (1 < page), hasNext = (page < \<lceil>real_of_int n / real_of_int pageSize\<rceil>)\<rparr>"
    using getPosts_pagination [OF assms] by blast
  obtain k where k: "0 \<le> k" "cat_pagination (fst (getCategories parseDate cw now' page pageSize cfs)) =
     \<lparr>currentPage = page, totalPages = Fin \<lceil>real_of_int k / real_of_int pageSize\<rceil>,
      totalItems = k, itemsPerPage = pageSize,
      hasPrevious = (1 < page), hasNext = (page * pageSize < k)\<rparr>"
    using getCategories_pagination [OF assms] by blast
  show ?thesis
    unfolding n(2) k(2) Let_def
    using n(1) k(1) by (simp add: product_less_iff_less_ceiling [OF assms])
qed

text \<open>
  Page 1 of the three published sample posts in pages of two: 3 items, 2 pages, a next
  page and no previous one. Page 1 of the two sample categories in pages of two: 2
  items, 1 page, neither a next nor a previous page.
\<close>

theorem pagination_descriptor_witness:
  "pagination (fst (getPosts sample_app 1000 1800 1 2 [])) =
     \<lparr>currentPage = 1, totalPages = Fin 2, totalItems = 3, itemsPerPage = 2,
      hasPrevious = False, hasNext = True\<rparr>
   \<and> (let pg = pagination (fst (getPosts sample_app 1000 1800 1 2 []));
          pages = \<lceil>real_of_int (totalItems pg) / real_of_int 2\<rceil>
      in currentPage pg = 1 \<and> itemsPerPage pg = 2 \<and> 0 \<le> totalItems pg
         \<and> totalPages pg = Fin pages \<and> hasNext pg = (1 < pages) \<and> hasPrevious pg = (1 < (1::int)))
   \<and> (let pg = cat_pagination (fst (getCategories (\<lambda>name. NaN) sample_cat_app 1000 1 2
                 \<lparr>cf_search = None, cf_activeOnly = None, cf_parentOnly = None,
                  cf_parentId = None, cf_color = None, cf_sortBy = None,
                  cf_sortDirection = None\<rparr>));
          pages = \<lceil>real_of_int (totalItems pg) / real_of_int 2\<rceil>
      in currentPage pg = 1 \<and> itemsPerPage pg = 2 \<and> 0 \<le> totalItems pg
         \<and> totalPages pg = Fin pages
         \<and> hasNext pg = (1 * 2 < totalItems pg)
         \<and> hasNext pg = (1 < pages) \<and> hasPrevious pg = (1 < (1::int)))"
proof -
  have p: "(0::int) < 2" by simp
  have e: "pagination (fst (getPosts sample_app 1000 1800 1 2 [])) =
     \<lparr>currentPage = 1, totalPages = Fin 2, totalItems = 3, itemsPerPage = 2,
      hasPrevious = False, hasNext = True\<rparr>"
    by (simp add: getPosts_def Let_def isCacheValid_def setLoading_def new_BlogService_def
        mock_getPublishedPosts_def applyFilters_def filter_search_def filter_categoryIds_def
        filter_tags_def filter_authorId_def filter_status_def filter_featured_def
        filter_dateFrom_def filter_dateTo_def applySorting_def array_sort_def
        compareValues_def js_gt_def getTime_def sample_app_def sample_heap_def post1_def
        post2_def post3_def post_draft_def applyPagination_def slice_def buildResponse_def
        ceil_div_def)
  from pagination_descriptor [OF p, of sample_app 1000 1800 1 "[]" "\<lambda>name. NaN" sample_cat_app 1000
      "\<lparr>cf_search = None, cf_activeOnly = None, cf_parentOnly = None,
                  cf_parentId = None, cf_color = None, cf_sortBy = None,
                  cf_sortDirection = None\<rparr>"] e
  show ?thesis by blast
qed

section \<open>Properties of the filter stage\<close>

lemma list_ex_member_iff:
  "list_ex (List.member xs) C = (set xs \<inter> set C \<noteq> {})"
  by (auto simp add: list_ex_iff)

text \<open>
  Claim C5. Let \<open>F\<close> be a filter object whose only constraint is the category-id
  array \<open>C\<close>: every other filter is absent or holds its unset value (the empty
  string for \<open>search\<close> and \<open>authorId\<close>, the empty array for \<open>tags\<close>, \<open>false\<close> for
  \<open>featured\<close>; a status and a date have no unset value, so these are absent). \<open>F\<close>
  may also carry the sort field and direction, which the filter stage does not read.
  Then \<open>_applyFilters(E, F)\<close> is the sublist of the posts of \<open>E\<close>, in input order,
  whose \<open>categoryIds\<close> share an element with \<open>C\<close>; for the empty array \<open>C\<close> it is
  \<open>E\<close> itself. The result is a new array: \<open>E\<close> and the posts are not written to, as
  the function returns no store.
\<close>

theorem applyFilters_categories_only:
  assumes "get_categoryIds F = Some C"
    and "get_search F = None \<or> get_search F = Some []"
    and "get_tags F = None \<or> get_tags F = Some []"
    and "get_authorId F = None \<or> get_authorId F = Some []"
    and "get_featured F = None \<or> get_featured F = Some False"
    and "get_status F = None" and "get_dateFrom F = None" and "get_dateTo F = None"
  shows "applyFilters h E F =
     (if C = [] then E else filter (\<lambda>post. set (categoryIds (h post)) \<inter> set C \<noteq> {}) E)"
proof -
  have "filter_search h F E = E"
    using assms(2) by (auto simp add: filter_search_def)
  moreover have "filter_tags h F ps = ps" for ps
    using assms(3) by (auto simp add: filter_tags_def)
  moreover have "filter_authorId h F ps = ps" for ps
    using assms(4) by (auto simp add: filter_authorId_def)
  moreover have "filter_featured h F ps = ps" for ps
    using assms(5) by (auto simp add: filter_featured_def)
  moreover have "filter_status h F ps = ps" "filter_dateFrom h F ps = ps"
    "filter_dateTo h F ps = ps" for ps
    using assms(6-8) by (simp_all add: filter_status_def filter_dateFrom_def filter_dateTo_def)
  ultimately show ?thesis
    using assms(1) by (simp add: applyFilters_def filter_categoryIds_def list_ex_member_iff)
qed

text \<open>
  The filter objects that the category page and the list page build, on the sample
  posts: \<open>{categoryIds: ['categoria-7'], tags: [], authorId: '', sortBy}\<close> lets the
  first post pass, and \<open>{sortBy, categoryIds: [], tags: [], authorId: ''}\<close> lets all
  four pass.
\<close>

theorem applyFilters_categories_only_witness:
  "applyFilters sample_heap [0, 1, 2, 3]
     [CategoryIds [''categoria-7''], Tags [], AuthorId [], SortBy PublishedAt] = [0]
   \<and> applyFilters sample_heap [0, 1, 2, 3]
     [SortBy PublishedAt, CategoryIds [], Tags [], AuthorId []] = [0, 1, 2, 3]
   \<and> applyFilters sample_heap [0, 1, 2, 3] [CategoryIds [''categoria-7'', ''categoria-3'']] = [0, 2]"
proof -
  have a: "applyFilters sample_heap [0, 1, 2, 3]
             [CategoryIds [''categoria-7''], Tags [], AuthorId [], SortBy PublishedAt] = [0]"
    using applyFilters_categories_only
      [of "[CategoryIds [''categoria-7''], Tags [], AuthorId [], SortBy PublishedAt]"
          "[''categoria-7'']" sample_heap "[0, 1, 2, 3]"]
    by (simp add: sample_heap_def post1_def post2_def post3_def post_draft_def)
  have b: "applyFilters sample_heap [0, 1, 2, 3]
             [SortBy PublishedAt, CategoryIds [], Tags [], AuthorId []] = [0, 1, 2, 3]"
    using applyFilters_categories_only
      [of "[SortBy PublishedAt, CategoryIds [], Tags [], AuthorId []]" "[]" sample_heap
          "[0, 1, 2, 3]"]
    by simp
  have c: "applyFilters sample_heap [0, 1, 2, 3] [CategoryIds [''categoria-7'', ''categoria-3'']]
             = [0, 2]"
    using applyFilters_categories_only
      [of "[CategoryIds [''categoria-7'', ''categoria-3'']]" "[''categoria-7'', ''categoria-3'']"
          sample_heap "[0, 1, 2, 3]"]
    by (simp add: sample_heap_def post1_def post2_def post3_def post_draft_def)
  from a b c show ?thesis by simp
qed

section \<open>Properties of the sort stage\<close>


lemma insert_by_set [simp]: "set (insert_by c x ys) = insert x (set ys)"
  by (induction ys) auto

lemma array_sort_Cons: "array_sort c (x # xs) = insert_by c x (array_sort c xs)"
  by (simp add: array_sort_def)

lemma array_sort_Nil [simp]: "array_sort c [] = []"
  by (simp add: array_sort_def)

lemma array_sort_set [simp]: "set (array_sort c xs) = set xs"
  by (induction xs) (simp_all add: array_sort_Cons)















lemmas sample_data = sample_heap_def post1_def post2_def post3_def post_draft_def




section \<open>Lookups and blank searches\<close>

text \<open>
  Claim C9. When no post of the store has the id (respectively the slug),
  \<open>BlogService.getPostById\<close> (respectively \<open>getPostBySlug\<close>) emits null on the value
  channel of its observable, not an error. When a post matches, it emits a post of the
  store with that id (respectively slug).
\<close>

theorem getPost_null_or_post:
  "((\<forall>post\<in>set (BLOG_POSTS_MOCK w). post_id (heap w post) \<noteq> i)
      \<longrightarrow> fst (getPostById w i) = Inr None)
   \<and> ((\<exists>post\<in>set (BLOG_POSTS_MOCK w). post_id (heap w post) = i)
      \<longrightarrow> (\<exists>post. fst (getPostById w i) = Inr (Some post)
                   \<and> post \<in> set (BLOG_POSTS_MOCK w) \<and> post_id (heap w post) = i))
   \<and> ((\<forall>post\<in>set (BLOG_POSTS_MOCK w). slug (heap w post) \<noteq> s)
      \<longrightarrow> fst (getPostBySlug w s) = Inr None)
   \<and> ((\<exists>post\<in>set (BLOG_POSTS_MOCK w). slug (heap w post) = s)
      \<longrightarrow> (\<exists>post. fst (getPostBySlug w s) = Inr (Some post)
                   \<and> post \<in> set (BLOG_POSTS_MOCK w) \<and> slug (heap w post) = s))"
proof (intro conjI impI)
  assume "\<forall>post\<in>set (BLOG_POSTS_MOCK w). post_id (heap w post) \<noteq> i"
  then show "fst (getPostById w i) = Inr None"
    by (simp add: getPostById_def mock_getPostById_def Let_def find_None_iff)
next
  assume "\<exists>post\<in>set (BLOG_POSTS_MOCK w). post_id (heap w post) = i"
  then obtain post where "find (\<lambda>post. post_id (heap w post) = i) (BLOG_POSTS_MOCK w) = Some post"
    by (cases "find (\<lambda>post. post_id (heap w post) = i) (BLOG_POSTS_MOCK w)")
       (auto simp add: find_None_iff)
  then show "\<exists>post. fst (getPostById w i) = Inr (Some post)
                   \<and> post \<in> set (BLOG_POSTS_MOCK w) \<and> post_id (heap w post) = i"
    by (auto simp add: getPostById_def mock_getPostById_def Let_def find_Some_iff)
next
  assume "\<forall>post\<in>set (BLOG_POSTS_MOCK w). slug (heap w post) \<noteq> s"
  then show "fst (getPostBySlug w s) = Inr None"
    by (simp add: getPostBySlug_def mock_getPostBySlug_def Let_def find_None_iff)
next
  assume "\<exists>post\<in>set (BLOG_POSTS_MOCK w). slug (heap w post) = s"
  then obtain post where "find (\<lambda>post. slug (heap w post) = s) (BLOG_POSTS_MOCK w) = Some post"
    by (cases "find (\<lambda>post. slug (heap w post) = s) (BLOG_POSTS_MOCK w)")
       (auto simp add: find_None_iff)
  then show "\<exists>post. fst (getPostBySlug w s) = Inr (Some post)
                   \<and> post \<in> set (BLOG_POSTS_MOCK w) \<and> slug (heap w post) = s"
    by (auto simp add: getPostBySlug_def mock_getPostBySlug_def Let_def find_Some_iff)
qed

text \<open>
  In the sample store no post has the id \<open>post-9\<close> or the slug \<open>nada\<close>; the post
  with the id \<open>post-2\<close> and the slug \<open>docker-kubernetes\<close> are found.
\<close>

theorem getPost_null_or_post_witness:
  "fst (getPostById sample_app ''post-9'') = Inr None
   \<and> fst (getPostBySlug sample_app ''nada'') = Inr None
   \<and> fst (getPostById sample_app ''post-2'') = Inr (Some 1)
   \<and> fst (getPostBySlug sample_app ''docker-kubernetes'') = Inr (Some 2)"
proof -
  have a: "\<forall>post\<in>set (BLOG_POSTS_MOCK sample_app). post_id (heap sample_app post) \<noteq> ''post-9''"
    by (simp add: sample_app_def sample_data)
  have b: "\<forall>post\<in>set (BLOG_POSTS_MOCK sample_app). slug (heap sample_app post) \<noteq> ''nada''"
    by (simp add: sample_app_def sample_data)
  have c: "fst (getPostById sample_app ''post-2'') = Inr (Some 1)"
    by (simp add: getPostById_def mock_getPostById_def sample_app_def sample_data)
  have d: "fst (getPostBySlug sample_app ''docker-kubernetes'') = Inr (Some 2)"
    by (simp add: getPostBySlug_def mock_getPostBySlug_def sample_app_def sample_data)
  from getPost_null_or_post [of sample_app "''post-9''" "''nada''"] a b c d
  show ?thesis by blast
qed

lemma trim_blank:
  assumes "\<forall>c\<in>set s. isWhiteSpace c"
  shows "trim s = []"
  using assms by (auto simp add: trim_def dest: set_dropWhileD)

text \<open>
  Claim C10. For a search term that is empty or consists of white space only,
  \<open>BlogService.searchPosts\<close> and \<open>CategoriaService.searchCategories\<close> return the
  empty list and leave the state as it was, loading state included: nothing is
  searched, filtered or sorted. The filter stage differs: there an absent or empty
  search term lets every post pass.
\<close>

theorem blank_search_empty:
  assumes "\<forall>c\<in>set searchTerm. isWhiteSpace c"
  shows "searchPosts w searchTerm fs = ([], w)
       \<and> searchCategories cw searchTerm = ([], cw)
       \<and> filter_search h [] posts = posts
       \<and> filter_search h [Search ''''] posts = posts"
  using trim_blank [OF assms]
  by (simp add: searchPosts_def searchCategories_def filter_search_def)

text \<open>A term of two spaces and a tab, on the sample data.\<close>

theorem blank_search_empty_witness:
  "searchPosts sample_app [CHR '' '', CHR '' '', CHR 0x09] [] = ([], sample_app)
   \<and> searchCategories sample_cat_app [CHR '' '', CHR '' '', CHR 0x09] = ([], sample_cat_app)
   \<and> searchPosts sample_app [] [] = ([], sample_app)"
proof -
  have a: "\<forall>c\<in>set [CHR '' '', CHR '' '', CHR 0x09]. isWhiteSpace c"
    by (simp add: isWhiteSpace_def)
  have b: "\<forall>c\<in>set []. isWhiteSpace c" by simp
  from blank_search_empty [OF a, of sample_app "[]" sample_cat_app sample_heap "[]"]
       blank_search_empty [OF b, of sample_app "[]" sample_cat_app sample_heap "[]"]
  show ?thesis by simp
qed

section \<open>Properties of the query cache\<close>

lemma slice_subset: "set (slice xs a b) \<subseteq> set xs"
  unfolding slice_def Let_def
  by (meson set_take_subset set_drop_subset subset_trans)

lemma applyPagination_subset: "set (applyPagination posts page pageSize) \<subseteq> set posts"
  by (simp add: applyPagination_def Let_def slice_subset)

lemma filter_stage_subset:
  "set (filter_search h fs ps) \<subseteq> set ps"
  "set (filter_categoryIds h fs ps) \<subseteq> set ps"
  "set (filter_tags h fs ps) \<subseteq> set ps"
  "set (filter_authorId h fs ps) \<subseteq> set ps"
  "set (filter_status h fs ps) \<subseteq> set ps"
  "set (filter_featured h fs ps) \<subseteq> set ps"
  "set (filter_dateFrom h fs ps) \<subseteq> set ps"
  "set (filter_dateTo h fs ps) \<subseteq> set ps"
  by (auto simp add: filter_search_def filter_categoryIds_def filter_tags_def
      filter_authorId_def filter_status_def filter_featured_def filter_dateFrom_def
      filter_dateTo_def Let_def split: option.splits if_splits)

lemma applyFilters_subset: "set (applyFilters h posts fs) \<subseteq> set posts"
  unfolding applyFilters_def
  by (meson filter_stage_subset subset_trans)

lemma applySorting_set: "set (applySorting h posts sb dir) = set posts"
  by (simp add: applySorting_def Let_def)

lemma pipeline_published:
  assumes "post \<in> set (applySorting h (applyFilters h (mock_getPublishedPosts h mock) fs) sb dir)"
  shows "status (h post) = published"
proof -
  from assms have "post \<in> set (mock_getPublishedPosts h mock)"
    using applyFilters_subset [of h "mock_getPublishedPosts h mock" fs]
    by (auto simp add: applySorting_set)
  then show ?thesis by (simp add: mock_getPublishedPosts_def)
qed

lemma isCacheValid_setLoading [simp]: "isCacheValid (setLoading l s) now k = isCacheValid s now k"
  by (simp add: isCacheValid_def setLoading_def)

lemma setLoading_cache [simp]:
  "postsCache (setLoading l s) = postsCache s" "lastFetchTime (setLoading l s) = lastFetchTime s"
  by (simp_all add: setLoading_def)

lemma getPosts_heap [simp]: "heap (snd (getPosts w now later page pageSize fs)) = heap w"
  by (simp add: getPosts_def Let_def split: option.split)

text \<open>What \<open>getPosts\<close> leaves in the cache: the entry it served, or the new one.\<close>

lemma getPosts_cache:
  "postsCache (blog (snd (getPosts w now later page pageSize fs))) k = Some posts \<Longrightarrow>
     postsCache (blog w) k = Some posts
     \<or> posts = applySorting (heap w)
          (applyFilters (heap w) (mock_getPublishedPosts (heap w) (BLOG_POSTS_MOCK w)) fs)
          (get_sortBy fs) (get_sortDirection fs)"
  by (auto simp add: getPosts_def Let_def split: option.splits if_splits)

lemma incrementViews_status [simp]:
  "status (heap (snd (incrementViews w postId)) post) = status (heap w post)"
  by (simp add: incrementViews_def split: option.split)

lemma toggleLike_status [simp]:
  "status (heap (snd (toggleLike w liked postId)) post) = status (heap w post)"
  by (simp add: toggleLike_def Let_def split: option.split)

lemma incrementViews_blog [simp]: "blog (snd (incrementViews w postId)) = blog w"
  by (simp add: incrementViews_def split: option.split)

lemma toggleLike_blog [simp]: "blog (snd (toggleLike w liked postId)) = blog w"
  by (simp add: toggleLike_def Let_def split: option.split)


lemma getPosts_hit:
  assumes "isCacheValid (blog w) now (generateCacheKey page pageSize fs)"
    and "postsCache (blog w) (generateCacheKey page pageSize fs) = Some cachedPosts"
  shows "getPosts w now later page pageSize fs =
     (buildResponse cachedPosts page pageSize fs None,
      w\<lparr>blog := setLoading False (setLoading True (blog w))\<rparr>)"
  using assms by (simp add: getPosts_def Let_def)

lemma getPosts_miss:
  assumes "\<not> isCacheValid (blog w) now (generateCacheKey page pageSize fs)
           \<or> postsCache (blog w) (generateCacheKey page pageSize fs) = None"
  shows "fst (getPosts w now later page pageSize fs) =
     (let posts = applySorting (heap w)
            (applyFilters (heap w) (mock_getPublishedPosts (heap w) (BLOG_POSTS_MOCK w)) fs)
            (get_sortBy fs) (get_sortDirection fs)
      in buildResponse (applyPagination posts page pageSize) page pageSize fs
           (Some (int (length posts))))"
  using assms by (auto simp add: getPosts_def Let_def)

lemma buildResponse_data [simp]: "data (buildResponse posts page pageSize fs tot) = posts"
  by (simp add: buildResponse_def Let_def)

lemma getPosts_data:
  assumes "post \<in> set (data (fst (getPosts w now later page pageSize fs)))"
  shows "(\<exists>k posts. postsCache (blog w) k = Some posts \<and> post \<in> set posts)
     \<or> post \<in> set (applySorting (heap w)
          (applyFilters (heap w) (mock_getPublishedPosts (heap w) (BLOG_POSTS_MOCK w)) fs)
          (get_sortBy fs) (get_sortDirection fs))"
proof (cases "isCacheValid (blog w) now (generateCacheKey page pageSize fs)
              \<and> postsCache (blog w) (generateCacheKey page pageSize fs) \<noteq> None")
  case True
  then obtain cached where c: "postsCache (blog w) (generateCacheKey page pageSize fs) = Some cached"
    by auto
  with True assms have "post \<in> set cached" by (simp add: getPosts_hit)
  with c show ?thesis by blast
next
  case False
  let ?ps = "applySorting (heap w)
          (applyFilters (heap w) (mock_getPublishedPosts (heap w) (BLOG_POSTS_MOCK w)) fs)
          (get_sortBy fs) (get_sortDirection fs)"
  from False have "post \<in> set (applyPagination ?ps page pageSize)"
    using assms getPosts_miss [of w now page pageSize fs later] by (simp add: Let_def)
  with applyPagination_subset [of ?ps page pageSize] show ?thesis by auto
qed


lemma reachable_cache_published:
  assumes "reachable w"
  shows "postsCache (blog w) k = Some posts \<Longrightarrow> post \<in> set posts
           \<Longrightarrow> status (heap w post) = published"
  using assms
proof (induction arbitrary: k posts post rule: reachable.induct)
  case (init h mock)
  then show ?case by (simp add: new_BlogService_def)
next
  case (step_getPosts w now later page pageSize fs)
  from getPosts_cache [OF step_getPosts.prems(1)] show ?case
  proof
    assume "postsCache (blog w) k = Some posts"
    then show ?thesis using step_getPosts.IH step_getPosts.prems(2) by simp
  next
    assume "posts = applySorting (heap w)
          (applyFilters (heap w) (mock_getPublishedPosts (heap w) (BLOG_POSTS_MOCK w)) fs)
          (get_sortBy fs) (get_sortDirection fs)"
    then show ?thesis using step_getPosts.prems(2) pipeline_published by simp
  qed
next
  case (step_getPostById w i)
  then show ?case by (simp add: getPostById_def Let_def)
next
  case (step_getPostBySlug w s)
  then show ?case by (simp add: getPostBySlug_def Let_def)
next
  case (step_searchPosts w searchTerm fs)
  then show ?case by (simp add: searchPosts_def Let_def split: if_splits)
next
  case (step_incrementViews w postId)
  then show ?case by simp
next
  case (step_toggleLike w liked postId)
  then show ?case by simp
next
  case (step_clearCache w)
  then show ?case by (simp add: clearCache_def)
next
  case (step_resetFilters w)
  then show ?case by (simp add: resetFilters_def)
qed

text \<open>The first query on the sample data: a cache miss that stores the sorted posts.\<close>

lemma sample_pipeline:
  "applySorting sample_heap (applyFilters sample_heap (mock_getPublishedPosts sample_heap [0, 1, 2, 3]) [])
     (get_sortBy []) (get_sortDirection []) = [0, 1, 2]"
  by (simp add: mock_getPublishedPosts_def applyFilters_def filter_search_def
      filter_categoryIds_def filter_tags_def filter_authorId_def filter_status_def
      filter_featured_def filter_dateFrom_def filter_dateTo_def applySorting_def array_sort_def
      compareValues_def js_gt_def getTime_def sample_data)

lemma sample_first_query:
  "getPosts sample_app 1000 1800 1 2 [] =
     (buildResponse [0, 1] 1 2 [] (Some 3),
      sample_app\<lparr>blog := (setLoading False
         ((setLoading True new_BlogService)
            \<lparr>postsCache := [generateCacheKey 1 2 [] \<mapsto> [0, 1, 2]],
             lastFetchTime := [generateCacheKey 1 2 [] \<mapsto> 1800]\<rparr>))
         \<lparr>currentFilters_subject := [], currentPage_subject := 1\<rparr>\<rparr>)"
proof -
  have "\<not> isCacheValid (setLoading True (blog sample_app)) 1000 (generateCacheKey 1 2 [])"
    by (simp add: isCacheValid_def sample_app_def new_BlogService_def)
  moreover have "applyPagination [0, 1, 2 :: nat] 1 2 = [0, 1]"
    by (simp add: applyPagination_def slice_def)
  ultimately show ?thesis
    using sample_pipeline
    by (simp add: getPosts_def Let_def) (simp add: sample_app_def new_BlogService_def setLoading_def)
qed

lemma sample_second_query:
  "fst (getPosts (snd (getPosts sample_app 1000 1800 1 2 [])) 2000 2800 1 2 [])
     = buildResponse [0, 1, 2] 1 2 [] None"
  by (simp add: sample_first_query getPosts_hit [where cachedPosts = "[0, 1, 2]"]
      isCacheValid_def CACHE_DURATION_def)

text \<open>
  Claim C7. In every state the application can reach, every post in the \<open>data\<close> array
  of a result of \<open>BlogService.getPosts\<close> has the status \<open>published\<close>, for every page,
  page size and filter object, whether the result comes from the cache or from the
  filter and sort pipeline.
\<close>

theorem getPosts_only_published:
  assumes "reachable w"
  shows "\<forall>post\<in>set (data (fst (getPosts w now later page pageSize fs))).
           status (heap (snd (getPosts w now later page pageSize fs)) post) = published"
proof
  fix post assume "post \<in> set (data (fst (getPosts w now later page pageSize fs)))"
  from getPosts_data [OF this] show
    "status (heap (snd (getPosts w now later page pageSize fs)) post) = published"
    using reachable_cache_published [OF assms] pipeline_published by auto
qed

text \<open>
  The sample data holds a draft. The first query (a miss) and the second (a hit) on it
  return the published posts 0, 1 and 0, 1, 2.
\<close>

theorem getPosts_only_published_witness:
  "reachable (snd (getPosts sample_app 1000 1800 1 2 []))
   \<and> data (fst (getPosts sample_app 1000 1800 1 2 [])) = [0, 1]
   \<and> data (fst (getPosts (snd (getPosts sample_app 1000 1800 1 2 [])) 2000 2800 1 2 [])) = [0, 1, 2]
   \<and> map (\<lambda>post. status (sample_heap post)) [0, 1, 2] = [published, published, published]"
proof -
  have r0: "reachable sample_app"
    unfolding sample_app_def by (rule reachable.init)
  then have r1: "reachable (snd (getPosts sample_app 1000 1800 1 2 []))"
    by (rule reachable.step_getPosts)
  have d1: "data (fst (getPosts sample_app 1000 1800 1 2 [])) = [0, 1]"
    by (simp add: sample_first_query)
  have d2: "data (fst (getPosts (snd (getPosts sample_app 1000 1800 1 2 [])) 2000 2800 1 2 []))
              = [0, 1, 2]"
    by (simp add: sample_second_query)
  have "heap (snd (getPosts sample_app 1000 1800 1 2 [])) = sample_heap"
    by (simp add: sample_app_def)
  with getPosts_only_published [OF r1, of 2000 2800 1 2 "[]"] d2
  have "map (\<lambda>post. status (sample_heap post)) [0, 1, 2] = [published, published, published]"
    by simp
  with r1 d1 d2 show ?thesis by simp
qed

lemma getPosts_miss_state:
  assumes "\<not> isCacheValid (blog w) now (generateCacheKey page pageSize fs)
           \<or> postsCache (blog w) (generateCacheKey page pageSize fs) = None"
  shows "postsCache (blog (snd (getPosts w now later page pageSize fs)))
           (generateCacheKey page pageSize fs)
         = Some (applySorting (heap w)
            (applyFilters (heap w) (mock_getPublishedPosts (heap w) (BLOG_POSTS_MOCK w)) fs)
            (get_sortBy fs) (get_sortDirection fs))
       \<and> lastFetchTime (blog (snd (getPosts w now later page pageSize fs)))
           (generateCacheKey page pageSize fs) = Some later"
  using assms by (auto simp add: getPosts_def Let_def)

text \<open>
  Claim C1 does not hold: the code caches the whole filtered and sorted array under
  the key of one page and, on a hit, returns that whole array as \<open>data\<close>. When a
  first call misses and a second call with the same arguments falls in the TTL
  window, the first returns the page's slice and the second returns the whole array;
  the pagination descriptor and the filters are the same in both.
\<close>

theorem getPosts_hit_after_miss:
  assumes "\<not> isCacheValid (blog w) now (generateCacheKey page pageSize fs)
           \<or> postsCache (blog w) (generateCacheKey page pageSize fs) = None"
    and "later \<noteq> 0" and "now2 - later < CACHE_DURATION"
  shows "(let posts = applySorting (heap w)
                (applyFilters (heap w) (mock_getPublishedPosts (heap w) (BLOG_POSTS_MOCK w)) fs)
                (get_sortBy fs) (get_sortDirection fs);
              first = fst (getPosts w now later page pageSize fs);
              second = fst (getPosts (snd (getPosts w now later page pageSize fs))
                               now2 later2 page pageSize fs)
          in data first = applyPagination posts page pageSize
             \<and> data second = posts
             \<and> pagination second = pagination first
             \<and> filters second = filters first)"
proof -
  let ?posts = "applySorting (heap w)
                (applyFilters (heap w) (mock_getPublishedPosts (heap w) (BLOG_POSTS_MOCK w)) fs)
                (get_sortBy fs) (get_sortDirection fs)"
  let ?w1 = "snd (getPosts w now later page pageSize fs)"
  have first: "fst (getPosts w now later page pageSize fs)
      = buildResponse (applyPagination ?posts page pageSize) page pageSize fs
          (Some (int (length ?posts)))"
    using getPosts_miss [OF assms(1)] by (simp add: Let_def)
  have cache: "postsCache (blog ?w1) (generateCacheKey page pageSize fs) = Some ?posts"
    and stamp: "lastFetchTime (blog ?w1) (generateCacheKey page pageSize fs) = Some later"
    using getPosts_miss_state [OF assms(1)] by simp_all
  have valid: "isCacheValid (blog ?w1) now2 (generateCacheKey page pageSize fs)"
    using stamp assms(2,3) by (simp add: isCacheValid_def)
  have second: "fst (getPosts ?w1 now2 later2 page pageSize fs)
      = buildResponse ?posts page pageSize fs None"
    using getPosts_hit [OF valid cache] by simp
  show ?thesis
    unfolding Let_def first second by (simp add: buildResponse_def Let_def)
qed

text \<open>
  The three published sample posts in pages of two: the first call returns the posts
  0 and 1, the second call, one second later, returns 0, 1 and 2 for the same page.
\<close>

theorem getPosts_hit_after_miss_witness:
  "data (fst (getPosts sample_app 1000 1800 1 2 [])) = [0, 1]
   \<and> data (fst (getPosts (snd (getPosts sample_app 1000 1800 1 2 [])) 2800 3600 1 2 []))
        = [0, 1, 2]
   \<and> pagination (fst (getPosts (snd (getPosts sample_app 1000 1800 1 2 [])) 2800 3600 1 2 []))
        = pagination (fst (getPosts sample_app 1000 1800 1 2 []))
   \<and> fst (getPosts (snd (getPosts sample_app 1000 1800 1 2 [])) 2800 3600 1 2 [])
        \<noteq> fst (getPosts sample_app 1000 1800 1 2 [])"
proof -
  have miss: "\<not> isCacheValid (blog sample_app) 1000 (generateCacheKey 1 2 [])
           \<or> postsCache (blog sample_app) (generateCacheKey 1 2 []) = None"
    by (simp add: sample_app_def new_BlogService_def)
  have l: "(1800::int) \<noteq> 0" and t: "(2800::int) - 1800 < CACHE_DURATION"
    by (simp_all add: CACHE_DURATION_def)
  have a: "applySorting (heap sample_app)
             (applyFilters (heap sample_app)
                (mock_getPublishedPosts (heap sample_app) (BLOG_POSTS_MOCK sample_app)) [])
             (get_sortBy []) (get_sortDirection []) = [0, 1, 2]"
    using sample_pipeline by (simp add: sample_app_def)
  have p: "applyPagination [0, 1, 2 :: nat] 1 2 = [0, 1]"
    by (simp add: applyPagination_def slice_def)
  from getPosts_hit_after_miss [OF miss l t, of 3600]
  have "data (fst (getPosts sample_app 1000 1800 1 2 [])) = [0, 1]
      \<and> data (fst (getPosts (snd (getPosts sample_app 1000 1800 1 2 [])) 2800 3600 1 2 []))
           = [0, 1, 2]
      \<and> pagination (fst (getPosts (snd (getPosts sample_app 1000 1800 1 2 [])) 2800 3600 1 2 []))
           = pagination (fst (getPosts sample_app 1000 1800 1 2 []))"
    unfolding Let_def a p by simp
  then show ?thesis by auto
qed

lemma getPosts_mock [simp]:
  "BLOG_POSTS_MOCK (snd (getPosts w now later page pageSize fs)) = BLOG_POSTS_MOCK w"
  by (simp add: getPosts_def Let_def split: option.split)

text \<open>
  Claim C8, as amended. \<open>incrementViews\<close> and \<open>toggleLike\<close> leave \<open>_postsCache\<close>
  and \<open>_lastFetchTime\<close> as they are: no entry is removed, replaced or invalidated, so
  within the TTL window a cached entry is still served after the write, with the same
  references to posts in the same order and the same pagination descriptor. The cached
  array shares its post objects with \<open>BLOG_POSTS_MOCK\<close>, and the write changes the
  counter of the post object in place, so the page that is served shows the post with
  its counter after the write.
\<close>

theorem write_ops_keep_cache:
  "postsCache (blog (snd (incrementViews w postId))) = postsCache (blog w)
   \<and> lastFetchTime (blog (snd (incrementViews w postId))) = lastFetchTime (blog w)
   \<and> postsCache (blog (snd (toggleLike w liked postId))) = postsCache (blog w)
   \<and> lastFetchTime (blog (snd (toggleLike w liked postId))) = lastFetchTime (blog w)
   \<and> (isCacheValid (blog w) now (generateCacheKey page pageSize fs)
        \<and> postsCache (blog w) (generateCacheKey page pageSize fs) = Some cachedPosts
      \<longrightarrow> fst (getPosts (snd (incrementViews w postId)) now later page pageSize fs)
             = buildResponse cachedPosts page pageSize fs None
          \<and> fst (getPosts (snd (toggleLike w liked postId)) now later page pageSize fs)
             = buildResponse cachedPosts page pageSize fs None
          \<and> fst (getPosts w now later page pageSize fs)
             = buildResponse cachedPosts page pageSize fs None)
   \<and> (mock_getPostById (heap w) (BLOG_POSTS_MOCK w) postId = Some post
      \<longrightarrow> heap (snd (incrementViews w postId))
             = (heap w)(post := (heap w post)\<lparr>views := views (heap w post) + 1\<rparr>)
          \<and> heap (snd (toggleLike w liked postId))
             = (heap w)(post := (heap w post)\<lparr>likes := likes (heap w post) + (if liked then 1 else - 1)\<rparr>))
   \<and> (mock_getPostById (heap w) (BLOG_POSTS_MOCK w) postId = None
      \<longrightarrow> snd (incrementViews w postId) = w \<and> snd (toggleLike w liked postId) = w)"
proof (intro conjI impI)
  assume h: "isCacheValid (blog w) now (generateCacheKey page pageSize fs)
        \<and> postsCache (blog w) (generateCacheKey page pageSize fs) = Some cachedPosts"
  show "fst (getPosts (snd (incrementViews w postId)) now later page pageSize fs)
             = buildResponse cachedPosts page pageSize fs None"
    using h by (simp add: getPosts_hit [where cachedPosts = cachedPosts])
  show "fst (getPosts (snd (toggleLike w liked postId)) now later page pageSize fs)
             = buildResponse cachedPosts page pageSize fs None"
    using h by (simp add: getPosts_hit [where cachedPosts = cachedPosts])
  show "fst (getPosts w now later page pageSize fs)
             = buildResponse cachedPosts page pageSize fs None"
    using h by (simp add: getPosts_hit [where cachedPosts = cachedPosts])
next
  assume "mock_getPostById (heap w) (BLOG_POSTS_MOCK w) postId = Some post"
  then show "heap (snd (incrementViews w postId))
             = (heap w)(post := (heap w post)\<lparr>views := views (heap w post) + 1\<rparr>)"
    and "heap (snd (toggleLike w liked postId))
             = (heap w)(post := (heap w post)\<lparr>likes := likes (heap w post) + (if liked then 1 else - 1)\<rparr>)"
    by (simp_all add: incrementViews_def toggleLike_def Let_def)
next
  assume "mock_getPostById (heap w) (BLOG_POSTS_MOCK w) postId = None"
  then show "snd (incrementViews w postId) = w" and "snd (toggleLike w liked postId) = w"
    by (simp_all add: incrementViews_def toggleLike_def)
qed simp_all

text \<open>
  The sample posts are cached by a first query. After \<open>incrementViews('post-1')\<close> the
  same entry is served, with the same references, and the first post has 2848 views.
\<close>

theorem write_ops_keep_cache_witness:
  "postsCache (blog (snd (incrementViews (snd (getPosts sample_app 1000 1800 1 2 [])) ''post-1'')))
       (generateCacheKey 1 2 []) = Some [0, 1, 2]
   \<and> data (fst (getPosts (snd (incrementViews (snd (getPosts sample_app 1000 1800 1 2 [])) ''post-1''))
                2000 2800 1 2 [])) = [0, 1, 2]
   \<and> views (heap (snd (incrementViews (snd (getPosts sample_app 1000 1800 1 2 [])) ''post-1'')) 0)
       = 2848"
proof -
  let ?w1 = "snd (getPosts sample_app 1000 1800 1 2 [])"
  have c: "postsCache (blog ?w1) (generateCacheKey 1 2 []) = Some [0, 1, 2]"
    by (simp add: sample_first_query)
  have v: "isCacheValid (blog ?w1) 2000 (generateCacheKey 1 2 [])"
    by (simp add: sample_first_query isCacheValid_def CACHE_DURATION_def)
  have f: "mock_getPostById (heap ?w1) (BLOG_POSTS_MOCK ?w1) ''post-1'' = Some 0"
    by (simp add: mock_getPostById_def sample_app_def sample_data)
  have h: "views (heap ?w1 0) = 2847"
    by (simp add: sample_app_def sample_data)
  from write_ops_keep_cache [of ?w1 "''post-1''" True 2000 1 2 "[]" "[0, 1, 2]" 2800 0] c v f h
  show ?thesis by simp
qed

text \<open>
  Claim C8 as stated fails in its last part: the page served from the cache after the
  write is not the page as it was before the write. Read through the store, the views
  of the served posts are 2847, 3421, 2156 before and 2848, 3421, 2156 after.
\<close>

theorem write_ops_cached_page_counterexample:
  "map (\<lambda>post. views (heap (snd (getPosts sample_app 1000 1800 1 2 [])) post))
       (data (fst (getPosts (snd (getPosts sample_app 1000 1800 1 2 [])) 2000 2800 1 2 [])))
     = [2847, 3421, 2156]
   \<and> map (\<lambda>post. views (heap (snd (incrementViews (snd (getPosts sample_app 1000 1800 1 2 [])) ''post-1'')) post))
       (data (fst (getPosts (snd (incrementViews (snd (getPosts sample_app 1000 1800 1 2 [])) ''post-1''))
                      2000 2800 1 2 [])))
     = [2848, 3421, 2156]"
proof -
  let ?w1 = "snd (getPosts sample_app 1000 1800 1 2 [])"
  have c: "postsCache (blog ?w1) (generateCacheKey 1 2 []) = Some [0, 1, 2]"
    by (simp add: sample_first_query)
  have v: "isCacheValid (blog ?w1) 2000 (generateCacheKey 1 2 [])"
    by (simp add: sample_first_query isCacheValid_def CACHE_DURATION_def)
  have f: "mock_getPostById (heap ?w1) (BLOG_POSTS_MOCK ?w1) ''post-1'' = Some 0"
    by (simp add: mock_getPostById_def sample_app_def sample_data)
  have h1: "heap ?w1 = sample_heap" by (simp add: sample_app_def)
  have h2: "heap (snd (incrementViews ?w1 ''post-1''))
              = sample_heap(0 := (sample_heap 0)\<lparr>views := views (sample_heap 0) + 1\<rparr>)"
    using f h1 by (simp add: incrementViews_def)
  have d2: "data (fst (getPosts (snd (incrementViews ?w1 ''post-1'')) 2000 2800 1 2 [])) = [0, 1, 2]"
    using c v by (simp add: getPosts_hit [where cachedPosts = "[0, 1, 2]"])
  show ?thesis
    unfolding d2 h2 by (simp add: sample_second_query) (simp add: sample_app_def sample_data)
qed

section \<open>Properties of the cache key\<close>

lemma join_with_Cons:
  "join_with sep (x # xs) = x @ (if xs = [] then [] else sep @ join_with sep xs)"
  by (cases xs) simp_all

lemma quote_letters:
  "quoteJSONString ''search'' = CHR 0x22 # ''search'' @ [CHR 0x22]"
  "quoteJSONString ''categoryIds'' = CHR 0x22 # ''categoryIds'' @ [CHR 0x22]"
  "quoteJSONString ''tags'' = CHR 0x22 # ''tags'' @ [CHR 0x22]"
  "quoteJSONString ''authorId'' = CHR 0x22 # ''authorId'' @ [CHR 0x22]"
  "quoteJSONString ''status'' = CHR 0x22 # ''status'' @ [CHR 0x22]"
  "quoteJSONString ''featured'' = CHR 0x22 # ''featured'' @ [CHR 0x22]"
  "quoteJSONString ''dateFrom'' = CHR 0x22 # ''dateFrom'' @ [CHR 0x22]"
  "quoteJSONString ''dateTo'' = CHR 0x22 # ''dateTo'' @ [CHR 0x22]"
  "quoteJSONString ''sortBy'' = CHR 0x22 # ''sortBy'' @ [CHR 0x22]"
  "quoteJSONString ''sortDirection'' = CHR 0x22 # ''sortDirection'' @ [CHR 0x22]"
  by (simp_all add: quoteJSONString_def quote_char_def)

text \<open>
  The first six code units of a member are the first six of its quoted name, and they
  tell the ten property names apart.
\<close>

lemma member_json_head:
  assumes "member_json p = Some m"
  shows "take 6 (m @ rest) = take 6 (CHR 0x22 # key_name (key_of p) @ [CHR 0x22])"
  using assms by (cases p) (auto simp add: member_json_def prop_name_def quote_letters)

lemma head_decides_key:
  "take 6 (CHR 0x22 # key_name k @ [CHR 0x22]) = take 6 (CHR 0x22 # key_name k' @ [CHR 0x22])
     \<Longrightarrow> k = k'"
  by (cases k; cases k') simp_all

lemma wf_filters_Cons:
  "wf_filters (p # ps) = (key_of p \<notin> key_of ` set ps \<and> wf_filters ps)"
  by (simp add: wf_filters_def)

lemma wf_same_key:
  "wf_filters fs \<Longrightarrow> p \<in> set fs \<Longrightarrow> q \<in> set fs \<Longrightarrow> key_of p = key_of q \<Longrightarrow> p = q"
  by (simp add: wf_filters_def distinct_map inj_on_def)

lemma wf_filters_filter: "wf_filters fs \<Longrightarrow> wf_filters (filter P fs)"
  by (simp add: wf_filters_def distinct_map_filter)

lemma member_json_defined: "(member_json p \<noteq> None) = (prop_json p \<noteq> None)"
  by (simp add: member_json_def)

text \<open>The members that are written are those of the properties with a JSON text.\<close>

lemma map_filter_member_json:
  "List.map_filter member_json fs
     = List.map_filter member_json (filter (\<lambda>p. prop_json p \<noteq> None) fs)"
  by (induction fs) (auto simp add: member_json_def)

lemma map_filter_head:
  assumes "prop_json p \<noteq> None"
  shows "take 6 (join_with sep (List.map_filter member_json (p # ps)) @ rest)
     = take 6 (CHR 0x22 # key_name (key_of p) @ [CHR 0x22])"
proof -
  from assms obtain m where m: "member_json p = Some m"
    by (auto simp add: member_json_def)
  show ?thesis
    using member_json_head [OF m,
        of "(if List.map_filter member_json ps = [] then []
             else sep @ join_with sep (List.map_filter member_json ps)) @ rest"]
    by (simp add: m join_with_Cons)
qed

lemma map_filter_Nil_iff:
  "(\<forall>p\<in>set ps. prop_json p \<noteq> None) \<Longrightarrow> (List.map_filter member_json ps = []) = (ps = [])"
  by (cases ps) (auto simp add: member_json_def)

text \<open>The text of the written members decides the order of their properties.\<close>

lemma members_injective:
  assumes "wf_filters fs1" and "wf_filters fs2" and "set fs1 = set fs2"
    and "\<forall>p\<in>set fs1. prop_json p \<noteq> None"
    and "join_with sep (List.map_filter member_json fs1)
           = join_with sep (List.map_filter member_json fs2)"
  shows "fs1 = fs2"
  using assms
proof (induction fs1 arbitrary: fs2)
  case Nil
  then show ?case by simp
next
  case (Cons a r1)
  then obtain b r2 where fs2: "fs2 = b # r2" by (cases fs2) auto
  have da: "prop_json a \<noteq> None" using Cons.prems(4) by simp
  have db: "prop_json b \<noteq> None" using Cons.prems(3,4) fs2 by auto
  have "take 6 (join_with sep (List.map_filter member_json (a # r1)) @ [])
          = take 6 (join_with sep (List.map_filter member_json (b # r2)) @ [])"
    using Cons.prems(5) fs2 by simp
  then have "key_of a = key_of b"
    unfolding map_filter_head [OF da] map_filter_head [OF db] by (rule head_decides_key)
  moreover have "a \<in> set fs2" "b \<in> set fs2" using Cons.prems(3) fs2 by auto
  ultimately have ab: "a = b" using wf_same_key [OF Cons.prems(2)] by blast
  have a1: "a \<notin> set r1" using Cons.prems(1) by (auto simp add: wf_filters_Cons)
  have a2: "a \<notin> set r2" using Cons.prems(2) fs2 ab by (auto simp add: wf_filters_Cons)
  have sets: "set r1 = set r2" using Cons.prems(3) fs2 ab a1 a2 by auto
  have d1: "\<forall>p\<in>set r1. prop_json p \<noteq> None" using Cons.prems(4) by simp
  then have d2: "\<forall>p\<in>set r2. prop_json p \<noteq> None" using sets by simp
  obtain m where m: "member_json a = Some m" using da by (auto simp add: member_json_def)
  have "join_with sep (List.map_filter member_json r1)
          = join_with sep (List.map_filter member_json r2)"
  proof (cases "r1 = []")
    case True
    then have "r2 = []" using sets by simp
    with True show ?thesis by simp
  next
    case False
    then have "r2 \<noteq> []" using sets by auto
    with False Cons.prems(5) fs2 ab m show ?thesis
      by (simp add: join_with_Cons map_filter_Nil_iff [OF d1] map_filter_Nil_iff [OF d2])
  qed
  then have "r1 = r2"
    using Cons.prems(1,2) fs2 sets d1 by (intro Cons.IH) (simp_all add: wf_filters_Cons)
  with ab fs2 show ?case by simp
qed

text \<open>
  Claim C2, as amended. For every page and page size, two calls to \<open>getPosts\<close> whose
  filter objects hold the same properties with the same values derive the same cache
  key, and so address the same cache entry, exactly when the properties that
  \<open>JSON.stringify\<close> writes, those whose value is not undefined, stand in the same
  insertion order in both objects. The key is not normalised; a property whose value
  is undefined is left out of it, wherever it was inserted.
\<close>

theorem cacheKey_insertion_order:
  assumes "wf_filters fs1" and "wf_filters fs2" and "set fs1 = set fs2"
  shows "(generateCacheKey page pageSize fs1 = generateCacheKey page pageSize fs2)
       = (filter (\<lambda>p. prop_json p \<noteq> None) fs1 = filter (\<lambda>p. prop_json p \<noteq> None) fs2)"
proof
  let ?d1 = "filter (\<lambda>p. prop_json p \<noteq> None) fs1"
  let ?d2 = "filter (\<lambda>p. prop_json p \<noteq> None) fs2"
  assume "generateCacheKey page pageSize fs1 = generateCacheKey page pageSize fs2"
  then have "join_with '','' (List.map_filter member_json fs1)
               = join_with '','' (List.map_filter member_json fs2)"
    by (simp add: generateCacheKey_def JSON_stringify_def)
  then have j: "join_with '','' (List.map_filter member_json ?d1)
               = join_with '','' (List.map_filter member_json ?d2)"
    using map_filter_member_json [of fs1] map_filter_member_json [of fs2] by simp
  have "wf_filters ?d1" "wf_filters ?d2" using assms(1,2) by (simp_all add: wf_filters_filter)
  moreover have "set ?d1 = set ?d2" using assms(3) by simp
  moreover have "\<forall>p\<in>set ?d1. prop_json p \<noteq> None" by simp
  ultimately show "?d1 = ?d2" using j by (rule members_injective)
next
  assume "filter (\<lambda>p. prop_json p \<noteq> None) fs1 = filter (\<lambda>p. prop_json p \<noteq> None) fs2"
  then have "List.map_filter member_json fs1 = List.map_filter member_json fs2"
    using map_filter_member_json [of fs1] map_filter_member_json [of fs2] by simp
  then show "generateCacheKey page pageSize fs1 = generateCacheKey page pageSize fs2"
    by (simp add: generateCacheKey_def JSON_stringify_def)
qed

text \<open>
  Page 1 of size 12. The filters \<open>{search, authorId}\<close> and \<open>{authorId, search}\<close> with
  both values defined give two keys. With \<open>search: undefined\<close> in both, the two
  insertion orders give one key.
\<close>

theorem cacheKey_insertion_order_witness:
  "generateCacheKey 1 12 [Search ''angular'', AuthorId ''autor-1'']
     \<noteq> generateCacheKey 1 12 [AuthorId ''autor-1'', Search ''angular'']
   \<and> generateCacheKey 1 12 [Undefined K_search, AuthorId ''autor-1'']
     = generateCacheKey 1 12 [AuthorId ''autor-1'', Undefined K_search]"
proof -
  have w1: "wf_filters [Search ''angular'', AuthorId ''autor-1'']"
    and w2: "wf_filters [AuthorId ''autor-1'', Search ''angular'']"
    and w3: "wf_filters [Undefined K_search, AuthorId ''autor-1'']"
    and w4: "wf_filters [AuthorId ''autor-1'', Undefined K_search]"
    by (simp_all add: wf_filters_def)
  have s: "set [Search ''angular'', AuthorId ''autor-1''] = set [AuthorId ''autor-1'', Search ''angular'']"
    and t: "set [Undefined K_search, AuthorId ''autor-1''] = set [AuthorId ''autor-1'', Undefined K_search]"
    by auto
  from cacheKey_insertion_order [OF w1 w2 s, of 1 12] cacheKey_insertion_order [OF w3 w4 t, of 1 12]
  show ?thesis by simp
qed

lemma getPosts_cache_other:
  "k \<noteq> generateCacheKey page pageSize fs \<Longrightarrow>
     postsCache (blog (snd (getPosts w now later page pageSize fs))) k = postsCache (blog w) k"
  by (simp add: getPosts_def Let_def split: option.split)

text \<open>
  Claim C2 as stated fails: the same two properties in the two orders give two JSON
  texts and two keys, and after a query with the first filter object the cache has no
  entry under the key of the second.
\<close>

theorem cacheKey_order_counterexample:
  "wf_filters [Search ''angular'', AuthorId ''autor-1'']
   \<and> wf_filters [AuthorId ''autor-1'', Search ''angular'']
   \<and> set [Search ''angular'', AuthorId ''autor-1''] = set [AuthorId ''autor-1'', Search ''angular'']
   \<and> JSON_stringify [Search ''angular'', AuthorId ''autor-1'']
       = CHR ''{'' # CHR 0x22 # ''search'' @ CHR 0x22 # '':'' @ CHR 0x22 # ''angular'' @ CHR 0x22 # '',''
         @ CHR 0x22 # ''authorId'' @ CHR 0x22 # '':'' @ CHR 0x22 # ''autor-1'' @ CHR 0x22 # ''}''
   \<and> JSON_stringify [AuthorId ''autor-1'', Search ''angular'']
       = CHR ''{'' # CHR 0x22 # ''authorId'' @ CHR 0x22 # '':'' @ CHR 0x22 # ''autor-1'' @ CHR 0x22 # '',''
         @ CHR 0x22 # ''search'' @ CHR 0x22 # '':'' @ CHR 0x22 # ''angular'' @ CHR 0x22 # ''}''
   \<and> generateCacheKey 1 12 [Search ''angular'', AuthorId ''autor-1'']
       \<noteq> generateCacheKey 1 12 [AuthorId ''autor-1'', Search ''angular'']
   \<and> postsCache (blog (snd (getPosts sample_app 1000 1800 1 12 [Search ''angular'', AuthorId ''autor-1''])))
         (generateCacheKey 1 12 [AuthorId ''autor-1'', Search ''angular'']) = None"
proof -
  have k: "generateCacheKey 1 12 [AuthorId ''autor-1'', Search ''angular'']
       \<noteq> generateCacheKey 1 12 [Search ''angular'', AuthorId ''autor-1'']"
    by (simp add: generateCacheKey_def JSON_stringify_def member_json_def prop_name_def
        quoteJSONString_def quote_char_def)
  have "postsCache (blog (snd (getPosts sample_app 1000 1800 1 12 [Search ''angular'', AuthorId ''autor-1''])))
         (generateCacheKey 1 12 [AuthorId ''autor-1'', Search ''angular'']) = None"
    using getPosts_cache_other [OF k] by (simp add: sample_app_def new_BlogService_def)
  moreover have "JSON_stringify [Search ''angular'', AuthorId ''autor-1'']
       = CHR ''{'' # CHR 0x22 # ''search'' @ CHR 0x22 # '':'' @ CHR 0x22 # ''angular'' @ CHR 0x22 # '',''
         @ CHR 0x22 # ''authorId'' @ CHR 0x22 # '':'' @ CHR 0x22 # ''autor-1'' @ CHR 0x22 # ''}''"
    and "JSON_stringify [AuthorId ''autor-1'', Search ''angular'']
       = CHR ''{'' # CHR 0x22 # ''authorId'' @ CHR 0x22 # '':'' @ CHR 0x22 # ''autor-1'' @ CHR 0x22 # '',''
         @ CHR 0x22 # ''search'' @ CHR 0x22 # '':'' @ CHR 0x22 # ''angular'' @ CHR 0x22 # ''}''"
    by (simp_all add: JSON_stringify_def member_json_def prop_name_def quoteJSONString_def
        quote_char_def)
  moreover have "wf_filters [Search ''angular'', AuthorId ''autor-1'']"
    and "wf_filters [AuthorId ''autor-1'', Search ''angular'']"
    by (simp_all add: wf_filters_def)
  moreover have "set [Search ''angular'', AuthorId ''autor-1'']
      = set [AuthorId ''autor-1'', Search ''angular'']"
    by auto
  ultimately show ?thesis using k by (simp add: not_sym [OF k])
qed

end
